theory Spec2Isabelle
  imports Complex_Main
begin

section \<open>Data model\<close>

text \<open>
  The types of \<^verbatim>\<open>@/types\<close> as the components use them. A member and a group both
  have fields \<^verbatim>\<open>id\<close> and \<^verbatim>\<open>name\<close>; the record fields carry the owner as a prefix.
  An optional field (\<^verbatim>\<open>groupId?: string\<close>) is an option, \<^verbatim>\<open>undefined\<close> being \<open>None\<close>.
\<close>

record TeamMember =
  member_id :: string
  member_name :: string
  title :: string
  timezone :: string
  workingHoursStart :: int
  workingHoursEnd :: int
  groupId :: "string option"

record TeamGroup =
  group_id :: string
  group_name :: string
  group_order :: int

datatype TeamRole = Admin | Member

record Team =
  team_id :: string
  team_name :: string
  members :: "TeamMember list"
  groups :: "TeamGroup list"

text \<open>The cached query result \<^verbatim>\<open>{ team, role }\<close> that \<^verbatim>\<open>updateTeamCache\<close> transforms.\<close>

record TeamData =
  team :: Team
  role :: TeamRole

section \<open>Realtime reconciler: the cache transforms of \<^verbatim>\<open>app/[teamId]/page.tsx\<close>\<close>

text \<open>
  Every updater passed to \<^verbatim>\<open>updateTeamCache\<close> starts with
  \<^verbatim>\<open>if (!prev) return prev\<close>: the cache entry may be absent, so an updater maps
  \<open>TeamData option\<close> to \<open>TeamData option\<close>.
\<close>

definition onData_memberAdded :: "TeamMember \<Rightarrow> TeamData option \<Rightarrow> TeamData option" where
  "onData_memberAdded newMember prev =
     (case prev of
        None \<Rightarrow> None
      | Some p \<Rightarrow>
          if list_ex (\<lambda>m. member_id m = member_id newMember) (members (team p))
          then Some p
          else Some (p\<lparr>team := (team p)\<lparr>members := members (team p) @ [newMember]\<rparr>\<rparr>))"

text \<open>The same event in \<^verbatim>\<open>app/[teamId]/client.tsx\<close>, on the bare member list.\<close>

definition client_memberAdded :: "TeamMember \<Rightarrow> TeamMember list \<Rightarrow> TeamMember list" where
  "client_memberAdded newMember prev =
     (if list_ex (\<lambda>m. member_id m = member_id newMember) prev
      then prev
      else prev @ [newMember])"

text \<open>
  \<^verbatim>\<open>new Map(entries)\<close>: the entries are inserted from left to right, a later entry
  replacing an earlier one with the same key.
\<close>

definition Map_new :: "('k \<times> 'v) list \<Rightarrow> ('k \<rightharpoonup> 'v)" where
  "Map_new entries = fold (\<lambda>(k, v) mp. mp(k \<mapsto> v)) entries Map.empty"

text \<open>
  \<^verbatim>\<open>order.map((id) => map.get(id)).filter(Boolean)\<close>: a lookup that misses gives
  \<^verbatim>\<open>undefined\<close>, which the filter removes; a member object is always truthy.
\<close>

definition client_membersReordered :: "string list \<Rightarrow> TeamMember list \<Rightarrow> TeamMember list" where
  "client_membersReordered ord prev =
     (let mp = Map_new (map (\<lambda>m. (member_id m, m)) prev)
      in List.map_filter (\<lambda>i. mp i) ord)"

definition onData_membersReordered :: "string list \<Rightarrow> TeamData option \<Rightarrow> TeamData option" where
  "onData_membersReordered ord prev =
     (case prev of
        None \<Rightarrow> None
      | Some p \<Rightarrow>
          (let mp = Map_new (map (\<lambda>m. (member_id m, m)) (members (team p)))
           in Some (p\<lparr>team := (team p)\<lparr>members := List.map_filter (\<lambda>i. mp i) ord\<rparr>\<rparr>)))"

definition onData_groupRemoved :: "string \<Rightarrow> TeamData option \<Rightarrow> TeamData option" where
  "onData_groupRemoved gid prev =
     (case prev of
        None \<Rightarrow> None
      | Some p \<Rightarrow>
          Some (p\<lparr>team := (team p)
            \<lparr>groups := filter (\<lambda>g. group_id g \<noteq> gid) (groups (team p)),
             members := map (\<lambda>m. if groupId m = Some gid then m\<lparr>groupId := None\<rparr> else m)
                          (members (team p))\<rparr>\<rparr>))"

text \<open>The local callback \<^verbatim>\<open>handleGroupRemoved\<close> has the same body.\<close>

definition handleGroupRemoved :: "string \<Rightarrow> TeamData option \<Rightarrow> TeamData option" where
  "handleGroupRemoved gid prev =
     (case prev of
        None \<Rightarrow> None
      | Some p \<Rightarrow>
          Some (p\<lparr>team := (team p)
            \<lparr>groups := filter (\<lambda>g. group_id g \<noteq> gid) (groups (team p)),
             members := map (\<lambda>m. if groupId m = Some gid then m\<lparr>groupId := None\<rparr> else m)
                          (members (team p))\<rparr>\<rparr>))"

section \<open>Overlap engine: \<^verbatim>\<open>components/timezone-visualizer.tsx\<close>\<close>

text \<open>
  The hour masks are JavaScript arrays created by \<^verbatim>\<open>new Array(24).fill(false)\<close>.
  A write \<^verbatim>\<open>hours[h] = v\<close> replaces the element when \<open>0 \<le> h < length\<close>; at an index at
  or beyond the length the array grows up to that index, the skipped slots being holes
  (they read as \<^verbatim>\<open>undefined\<close>, which is falsy, and are kept here as \<open>False\<close>); a negative
  index creates a property that is no element, so the elements stay as they are.
  A read beyond the length gives \<^verbatim>\<open>undefined\<close>, again falsy.
\<close>

definition js_set :: "bool list \<Rightarrow> int \<Rightarrow> bool \<Rightarrow> bool list" where
  "js_set xs h v =
     (if h < 0 then xs
      else if nat h < length xs then xs[nat h := v]
      else xs @ replicate (nat h - length xs) False @ [v])"

definition js_get :: "bool list \<Rightarrow> nat \<Rightarrow> bool" where
  "js_get xs h = (if h < length xs then xs ! h else False)"

text \<open>
  The loop \<^verbatim>\<open>for (let h = start; h < bound; h++) { hours[h] = true; }\<close>, which occurs
  three times in \<^verbatim>\<open>memberRows\<close>.
\<close>

function for_hours :: "int \<Rightarrow> int \<Rightarrow> bool list \<Rightarrow> bool list" where
  "for_hours h bound hours =
     (if h < bound then for_hours (h + 1) bound (js_set hours h True) else hours)"
  by pat_completeness auto
termination
  by (relation "measure (\<lambda>(h, bound, hours). nat (bound - h))") auto

declare for_hours.simps [simp del]

text \<open>A row \<^verbatim>\<open>{ member, hours }\<close> of \<^verbatim>\<open>memberRows\<close>.\<close>

record MemberRow =
  row_member :: TeamMember
  hours :: "bool list"

text \<open>
  \<^verbatim>\<open>convertHourToTimezone\<close> lives in \<^verbatim>\<open>lib/timezones\<close>, outside the sources at hand;
  it is a parameter of the model. The callback of \<^verbatim>\<open>members.map\<close>:
\<close>

definition memberRow ::
  "(int \<Rightarrow> string \<Rightarrow> string \<Rightarrow> int) \<Rightarrow> string \<Rightarrow> TeamMember \<Rightarrow> MemberRow" where
  "memberRow convertHourToTimezone viewerTimezone m =
     (let hours0 = replicate 24 False;
          startInViewerTz = convertHourToTimezone (workingHoursStart m) (timezone m) viewerTimezone;
          endInViewerTz = convertHourToTimezone (workingHoursEnd m) (timezone m) viewerTimezone
      in \<lparr>row_member = m,
          hours = (if startInViewerTz \<le> endInViewerTz
                   then for_hours startInViewerTz endInViewerTz hours0
                   else for_hours 0 endInViewerTz (for_hours startInViewerTz 24 hours0))\<rparr>)"

text \<open>\<^verbatim>\<open>if (!viewerTimezone) return []\<close>: without a viewer timezone there are no rows.\<close>

definition memberRows ::
  "(int \<Rightarrow> string \<Rightarrow> string \<Rightarrow> int) \<Rightarrow> TeamMember list \<Rightarrow> string \<Rightarrow> MemberRow list" where
  "memberRows convertHourToTimezone ms viewerTimezone =
     (if viewerTimezone = [] then []
      else map (memberRow convertHourToTimezone viewerTimezone) ms)"

text \<open>\<^verbatim>\<open>memberRows.find((row) => row.member.id === activeId)\<close>, the active id being a string or null.\<close>

definition selectedRow :: "MemberRow list \<Rightarrow> string option \<Rightarrow> MemberRow option" where
  "selectedRow rows activeId = find (\<lambda>r. Some (member_id (row_member r)) = activeId) rows"

text \<open>
  The pairwise overlap mask. A missing row falls back to an all-false mask, and the mask
  is all false as soon as one of the two rows is missing; otherwise it is the
  element-wise \<^verbatim>\<open>&&\<close> over the hours 0 to 23.
\<close>

definition overlapHours :: "MemberRow option \<Rightarrow> MemberRow option \<Rightarrow> bool list" where
  "overlapHours selectedRowA selectedRowB =
     (let selectedAHours = (case selectedRowA of Some r \<Rightarrow> hours r | None \<Rightarrow> replicate 24 False);
          selectedBHours = (case selectedRowB of Some r \<Rightarrow> hours r | None \<Rightarrow> replicate 24 False)
      in if selectedRowA = None \<or> selectedRowB = None then replicate 24 False
         else map (\<lambda>hour. js_get selectedAHours hour \<and> js_get selectedBHours hour) [0..<24])"

text \<open>
  \<^verbatim>\<open>findIndex(Boolean)\<close> scans from the front and gives the first index whose element is
  truthy, \<^verbatim>\<open>lastIndexOf(true)\<close> scans from the back and gives the last index whose
  element is \<^verbatim>\<open>true\<close>; both give \<open>-1\<close> when there is none.
\<close>

fun findIndex_from :: "bool list \<Rightarrow> int \<Rightarrow> int" where
  "findIndex_from [] i = - 1"
| "findIndex_from (x # xs) i = (if x then i else findIndex_from xs (i + 1))"

definition findIndex :: "bool list \<Rightarrow> int" where
  "findIndex xs = findIndex_from xs 0"

fun lastIndexOf_from :: "bool list \<Rightarrow> int \<Rightarrow> int" where
  "lastIndexOf_from [] i = - 1"
| "lastIndexOf_from (x # xs) i = (if x = True then i else lastIndexOf_from xs (i - 1))"

definition lastIndexOf_true :: "bool list \<Rightarrow> int" where
  "lastIndexOf_true xs = lastIndexOf_from (rev xs) (int (length xs) - 1)"

text \<open>
  The characters between the two hours of the summary, as the source file has them:
  U+00E2, U+20AC and U+201C, which are eight bytes in UTF-8.
\<close>

definition summary_separator :: string where
  "summary_separator = [CHR 0xC3, CHR 0xA2, CHR 0xE2, CHR 0x82, CHR 0xAC, CHR 0xE2, CHR 0x80, CHR 0x9C]"

text \<open>
  The text after \<^verbatim>\<open>Overlap:\<close>. \<^verbatim>\<open>formatHour\<close> lives in \<^verbatim>\<open>lib/utils\<close>, outside the
  sources at hand, and is a parameter. \<^verbatim>\<open>endExclusive\<close> is at least 1 where it is
  used, so JavaScript's \<^verbatim>\<open>%\<close> agrees with \<open>mod\<close>.
\<close>

definition overlapSummary :: "(int \<Rightarrow> string) \<Rightarrow> bool list \<Rightarrow> string" where
  "overlapSummary formatHour overlap =
     (let start = findIndex overlap;
          last_true = lastIndexOf_true overlap
      in if start = - 1 \<or> last_true = - 1 then ''No overlap in your time''
         else (let endExclusive = last_true + 1
               in formatHour start @ [CHR '' ''] @ summary_separator @ [CHR '' ''] @ formatHour (endExclusive mod 24)))"

section \<open>Local identity resolver: \<^verbatim>\<open>hooks/use-current-team-user.ts\<close>\<close>

datatype Source = Explicit | Suggested

record CurrentTeamUserState =
  memberId :: "string option"
  source :: "Source option"
  dismissedSuggestions :: "string list"

definition DEFAULT_STATE :: CurrentTeamUserState where
  "DEFAULT_STATE = \<lparr>memberId = None, source = None, dismissedSuggestions = []\<rparr>"

text \<open>
  A value of type \<^verbatim>\<open>string | null\<close> used as a condition: \<^verbatim>\<open>null\<close> and the empty
  string are falsy, every other string is truthy.
\<close>

definition truthy :: "string option \<Rightarrow> bool" where
  "truthy v = (case v of None \<Rightarrow> False | Some s \<Rightarrow> s \<noteq> [])"

definition currentUser :: "CurrentTeamUserState \<Rightarrow> TeamMember list \<Rightarrow> TeamMember option" where
  "currentUser state ms =
     (if \<not> truthy (memberId state) then None
      else find (\<lambda>m. Some (member_id m) = memberId state) ms)"

text \<open>
  The effect that clears a selection whose member is gone. Its \<^verbatim>\<open>setState\<close> updater is
  applied to the stored state.
\<close>

definition clearingEffect :: "CurrentTeamUserState \<Rightarrow> TeamMember list \<Rightarrow> CurrentTeamUserState" where
  "clearingEffect state ms =
     (if truthy (memberId state) \<and> currentUser state ms = None \<and> length ms > 0
      then state\<lparr>memberId := None, source := None\<rparr>
      else state)"

definition suggestedUser ::
  "CurrentTeamUserState \<Rightarrow> TeamMember list \<Rightarrow> string \<Rightarrow> TeamMember option" where
  "suggestedUser state ms viewerTimezone =
     (if truthy (memberId state) then None
      else if viewerTimezone = [] then None
      else (let exactMatches = filter (\<lambda>m. timezone m = viewerTimezone) ms
            in if length exactMatches = 1
               then (let match = exactMatches ! 0
                     in if member_id match \<notin> set (dismissedSuggestions state)
                        then Some match else None)
               else None))"

definition setCurrentUser ::
  "string option \<Rightarrow> Source \<Rightarrow> CurrentTeamUserState \<Rightarrow> CurrentTeamUserState" where
  "setCurrentUser mid src prev =
     prev\<lparr>memberId := mid, source := (if truthy mid then Some src else None)\<rparr>"

definition clearCurrentUser :: "CurrentTeamUserState \<Rightarrow> CurrentTeamUserState" where
  "clearCurrentUser prev = prev\<lparr>memberId := None, source := None\<rparr>"

definition dismissSuggestion :: "string \<Rightarrow> CurrentTeamUserState \<Rightarrow> CurrentTeamUserState" where
  "dismissSuggestion mid prev =
     prev\<lparr>dismissedSuggestions := dismissedSuggestions prev @ [mid]\<rparr>"

definition acceptSuggestion :: "string \<Rightarrow> CurrentTeamUserState \<Rightarrow> CurrentTeamUserState" where
  "acceptSuggestion mid prev = setCurrentUser (Some mid) Suggested prev"

definition isCurrentUser :: "CurrentTeamUserState \<Rightarrow> string \<Rightarrow> bool" where
  "isCurrentUser state mid = (memberId state = Some mid)"

section \<open>Session gate: \<^verbatim>\<open>lib/team-session.ts\<close> and its client variant\<close>

text \<open>
  The values \<^verbatim>\<open>JSON.parse\<close> can return. An object is the list of its properties;
  \<open>map_of\<close> reads a property, \<open>None\<close> being \<^verbatim>\<open>undefined\<close>.
\<close>

datatype json =
    JNull
  | JBool bool
  | JNumber real
  | JString string
  | JArray "json list"
  | JObject "(string \<times> json) list"

text \<open>What a \<^verbatim>\<open>try\<close> block can catch: the \<^verbatim>\<open>SyntaxError\<close> of \<^verbatim>\<open>JSON.parse\<close>, or
  an error thrown by the storage.\<close>

datatype js_exn = SyntaxError | StorageError

fun js_truthy :: "json \<Rightarrow> bool" where
  "js_truthy JNull = False"
| "js_truthy (JBool b) = b"
| "js_truthy (JNumber n) = (n \<noteq> 0)"
| "js_truthy (JString s) = (s \<noteq> [])"
| "js_truthy (JArray xs) = True"
| "js_truthy (JObject fs) = True"

text \<open>\<^verbatim>\<open>typeof value === "object"\<close>; it holds of \<^verbatim>\<open>null\<close> and of arrays too.\<close>

fun typeof_object :: "json \<Rightarrow> bool" where
  "typeof_object JNull = True"
| "typeof_object (JArray xs) = True"
| "typeof_object (JObject fs) = True"
| "typeof_object v = False"

text \<open>
  \<^verbatim>\<open>record.token\<close> and \<^verbatim>\<open>record.role\<close>: a property of an object; an array has
  neither of the two.
\<close>

fun get_prop :: "json \<Rightarrow> string \<Rightarrow> json option" where
  "get_prop (JObject fs) k = map_of fs k"
| "get_prop v k = None"

definition isTeamSession :: "json \<Rightarrow> bool" where
  "isTeamSession v =
     (if \<not> js_truthy v \<or> \<not> typeof_object v then False
      else (case get_prop v ''token'' of Some (JString t) \<Rightarrow> True | _ \<Rightarrow> False)
           \<and> (get_prop v ''role'' = Some (JString ''admin'')
                \<or> get_prop v ''role'' = Some (JString ''member'')))"

definition TEAM_SESSION_PREFIX :: string where
  "TEAM_SESSION_PREFIX = ''collab-time-session:''"

definition getTeamSessionKey :: "string \<Rightarrow> string" where
  "getTeamSessionKey teamId = TEAM_SESSION_PREFIX @ teamId"

text \<open>
  The body of the \<^verbatim>\<open>try\<close> block. The cookie store and \<^verbatim>\<open>JSON.parse\<close> are the
  platform's: \<open>getCookie\<close> gives the cookie's value, \<open>None\<close> when there is no such
  cookie, and either of the two may throw.
\<close>

definition readTeamSession_try ::
  "(string \<Rightarrow> js_exn + string option) \<Rightarrow> (string \<Rightarrow> js_exn + json) \<Rightarrow> string
     \<Rightarrow> js_exn + json option" where
  "readTeamSession_try getCookie JSON_parse teamId =
     (case getCookie (getTeamSessionKey teamId) of
        Inl e \<Rightarrow> Inl e
      | Inr None \<Rightarrow> Inr None
      | Inr (Some raw) \<Rightarrow>
          if raw = [] then Inr None
          else (case JSON_parse raw of
                  Inl e \<Rightarrow> Inl e
                | Inr parsed \<Rightarrow> Inr (if isTeamSession parsed then Some parsed else None)))"

text \<open>\<^verbatim>\<open>try { ... } catch { return null; }\<close>\<close>

definition readTeamSession ::
  "(string \<Rightarrow> js_exn + string option) \<Rightarrow> (string \<Rightarrow> js_exn + json) \<Rightarrow> string
     \<Rightarrow> js_exn + json option" where
  "readTeamSession getCookie JSON_parse teamId =
     (case readTeamSession_try getCookie JSON_parse teamId of
        Inl e \<Rightarrow> Inr None
      | Inr r \<Rightarrow> Inr r)"

text \<open>The client variant reads \<^verbatim>\<open>sessionStorage\<close> under another prefix.\<close>

definition CLIENT_TEAM_SESSION_PREFIX :: string where
  "CLIENT_TEAM_SESSION_PREFIX = ''collab-time-team-session:''"

definition client_getTeamSessionKey :: "string \<Rightarrow> string" where
  "client_getTeamSessionKey teamId = CLIENT_TEAM_SESSION_PREFIX @ teamId"

definition client_readTeamSession_try ::
  "(string \<Rightarrow> js_exn + string option) \<Rightarrow> (string \<Rightarrow> js_exn + json) \<Rightarrow> string
     \<Rightarrow> js_exn + json option" where
  "client_readTeamSession_try getItem JSON_parse teamId =
     (case getItem (client_getTeamSessionKey teamId) of
        Inl e \<Rightarrow> Inl e
      | Inr None \<Rightarrow> Inr None
      | Inr (Some raw) \<Rightarrow>
          if raw = [] then Inr None
          else (case JSON_parse raw of
                  Inl e \<Rightarrow> Inl e
                | Inr parsed \<Rightarrow> Inr (if isTeamSession parsed then Some parsed else None)))"

definition client_readTeamSession ::
  "(string \<Rightarrow> js_exn + string option) \<Rightarrow> (string \<Rightarrow> js_exn + json) \<Rightarrow> string
     \<Rightarrow> js_exn + json option" where
  "client_readTeamSession getItem JSON_parse teamId =
     (case client_readTeamSession_try getItem JSON_parse teamId of
        Inl e \<Rightarrow> Inr None
      | Inr r \<Rightarrow> Inr r)"

section \<open>Optimistic update: \<^verbatim>\<open>handleMemberDroppedOnGroup\<close> of \<^verbatim>\<open>app/[teamId]/page.tsx\<close>\<close>

record TeamSession =
  token :: string
  session_role :: TeamRole

datatype toast = toast_success string | toast_error string

text \<open>The arguments of \<^verbatim>\<open>updateMember(teamId, session.token, memberId, { groupId })\<close>.\<close>

record UpdateMemberCall =
  call_teamId :: string
  call_token :: string
  call_memberId :: string
  call_groupId :: string

text \<open>
  The result of an action, \<^verbatim>\<open>{ success: true, data }\<close> or
  \<^verbatim>\<open>{ success: false, error }\<close>; the handler does not read \<^verbatim>\<open>data\<close>.
\<close>

datatype ActionResult = Success | Failure string

text \<open>
  What the handler does to the world, in the order in which it does it: it writes the
  cache, sends a request, shows a toast. The page state is the cached snapshot and the
  effects so far.
\<close>

datatype effect =
    CacheUpdated "TeamData option"
  | Requested UpdateMemberCall
  | Toasted toast

record Page =
  cache :: "TeamData option"
  effects :: "effect list"

definition emit :: "effect \<Rightarrow> Page \<Rightarrow> Page" where
  "emit e st = st\<lparr>effects := effects st @ [e]\<rparr>"

text \<open>
  Modelled from the spec: \<^verbatim>\<open>updateTeamCache\<close> is returned by \<^verbatim>\<open>useUpdateTeamCache\<close> of
  \<^verbatim>\<open>hooks/use-team-query\<close>, which is not among the sources at hand. Following section
  4.4 it is the one update entry point of the store: it applies a snapshot-to-snapshot
  transform to the cached snapshot of the team.
\<close>

definition updateTeamCache :: "(TeamData option \<Rightarrow> TeamData option) \<Rightarrow> Page \<Rightarrow> Page" where
  "updateTeamCache updater st =
     (let next = updater (cache st)
      in st\<lparr>cache := next, effects := effects st @ [CacheUpdated next]\<rparr>)"

text \<open>
  The values the callback closes over. They are derived from the query data when the
  component renders: \<^verbatim>\<open>team = teamData?.team ?? null\<close>,
  \<^verbatim>\<open>members = team?.members ?? []\<close>, \<^verbatim>\<open>groups = team?.groups ?? []\<close>,
  \<^verbatim>\<open>isAdmin = teamData?.role === "admin"\<close>.
\<close>

record Closure =
  isAdmin :: bool
  session :: "TeamSession option"
  view_members :: "TeamMember list"
  view_groups :: "TeamGroup list"
  teamId :: string

definition rendered :: "string \<Rightarrow> TeamSession option \<Rightarrow> TeamData option \<Rightarrow> Closure" where
  "rendered tid sess teamData =
     \<lparr>isAdmin = (case teamData of None \<Rightarrow> False | Some d \<Rightarrow> role d = Admin),
      session = sess,
      view_members = (case teamData of None \<Rightarrow> [] | Some d \<Rightarrow> members (team d)),
      view_groups = (case teamData of None \<Rightarrow> [] | Some d \<Rightarrow> groups (team d)),
      teamId = tid\<rparr>"

text \<open>The two updaters of the handler: the optimistic write and the revert.\<close>

definition setGroupId :: "string \<Rightarrow> string option \<Rightarrow> TeamData option \<Rightarrow> TeamData option" where
  "setGroupId mid newGroupId prev =
     (case prev of
        None \<Rightarrow> None
      | Some p \<Rightarrow>
          Some (p\<lparr>team := (team p)
            \<lparr>members := map (\<lambda>m. if member_id m = mid then m\<lparr>groupId := newGroupId\<rparr> else m)
                          (members (team p))\<rparr>\<rparr>))"

text \<open>
  The handler is asynchronous: it runs up to \<^verbatim>\<open>await updateMember(...)\<close>, and goes on
  when the result arrives. What it keeps across the \<^verbatim>\<open>await\<close>:
\<close>

record Pending =
  pending_member :: TeamMember
  previousGroupId :: "string option"
  pending_call :: UpdateMemberCall

definition dropped_until_await ::
  "Closure \<Rightarrow> string \<Rightarrow> string \<Rightarrow> Page \<Rightarrow> Page \<times> Pending option" where
  "dropped_until_await c mid gid st =
     (if \<not> isAdmin c then (emit (Toasted (toast_error ''Admin access required'')) st, None)
      else case session c of
        None \<Rightarrow> (emit (Toasted (toast_error ''Admin access required'')) st, None)
      | Some sess \<Rightarrow>
         (case find (\<lambda>m. member_id m = mid) (view_members c) of
            None \<Rightarrow> (st, None)
          | Some member \<Rightarrow>
              if groupId member = Some gid then (st, None)
              else (let previousGroupId = groupId member;
                        st1 = updateTeamCache (setGroupId mid (Some gid)) st;
                        call = \<lparr>call_teamId = teamId c, call_token = token sess,
                                call_memberId = mid, call_groupId = gid\<rparr>
                    in (emit (Requested call) st1,
                        Some \<lparr>pending_member = member, previousGroupId = previousGroupId,
                              pending_call = call\<rparr>))))"

definition dropped_after_await ::
  "Closure \<Rightarrow> string \<Rightarrow> string \<Rightarrow> Pending \<Rightarrow> ActionResult \<Rightarrow> Page \<Rightarrow> Page" where
  "dropped_after_await c mid gid pend result st =
     (case result of
        Success \<Rightarrow>
          emit (Toasted (toast_success
                  (member_name (pending_member pend) @ '' added to '' @
                     (case find (\<lambda>g. group_id g = gid) (view_groups c) of
                        None \<Rightarrow> ''group''
                      | Some g \<Rightarrow> group_name g)))) st
      | Failure err \<Rightarrow>
          emit (Toasted (toast_error err))
            (updateTeamCache (setGroupId mid (previousGroupId pend)) st))"

text \<open>
  The whole handler when nothing else touches the page while the request is in flight;
  \<open>updateMember\<close> is the action of \<^verbatim>\<open>lib/actions\<close>, an external collaborator.
\<close>

definition handleMemberDroppedOnGroup ::
  "Closure \<Rightarrow> (UpdateMemberCall \<Rightarrow> ActionResult) \<Rightarrow> string \<Rightarrow> string \<Rightarrow> Page \<Rightarrow> Page" where
  "handleMemberDroppedOnGroup c updateMember mid gid st =
     (case dropped_until_await c mid gid st of
        (st1, None) \<Rightarrow> st1
      | (st1, Some pend) \<Rightarrow>
          dropped_after_await c mid gid pend (updateMember (pending_call pend)) st1)"

section \<open>Sample data\<close>

text \<open>
  Concrete members, teams, states and stand-ins for the functions the model takes as
  parameters; the properties below are evaluated on them.
\<close>

definition ann :: TeamMember where
  "ann = \<lparr>member_id = ''m1'', member_name = ''Ann'', title = ''Engineer'',
          timezone = ''UTC'', workingHoursStart = 9, workingHoursEnd = 17,
          groupId = Some ''g1''\<rparr>"

definition bob :: TeamMember where
  "bob = \<lparr>member_id = ''m2'', member_name = ''Bob'', title = ''Designer'',
          timezone = ''Asia/Tokyo'', workingHoursStart = 22, workingHoursEnd = 6,
          groupId = None\<rparr>"

definition g1 :: TeamGroup where
  "g1 = \<lparr>group_id = ''g1'', group_name = ''Core'', group_order = 0\<rparr>"

definition emptyTeam :: TeamData where
  "emptyTeam = \<lparr>team = \<lparr>team_id = ''t1'', team_name = ''Team'', members = [], groups = []\<rparr>,
                role = Admin\<rparr>"

definition smallTeam :: TeamData where
  "smallTeam = \<lparr>team = \<lparr>team_id = ''t1'', team_name = ''Team'', members = [ann, bob],
                          groups = [g1]\<rparr>,
                role = Admin\<rparr>"

text \<open>A conversion between three fixed-offset zones, standing in for \<^verbatim>\<open>convertHourToTimezone\<close>.\<close>

definition utcOffset :: "string \<Rightarrow> int" where
  "utcOffset tz = (if tz = ''Asia/Tokyo'' then 9 else if tz = ''America/New_York'' then - 5 else 0)"

definition sampleConvert :: "int \<Rightarrow> string \<Rightarrow> string \<Rightarrow> int" where
  "sampleConvert hour fromTz toTz = (hour - utcOffset fromTz + utcOffset toTz) mod 24"

definition cy :: TeamMember where
  "cy = \<lparr>member_id = ''m3'', member_name = ''Cy'', title = ''Support'',
          timezone = ''America/New_York'', workingHoursStart = 9, workingHoursEnd = 9,
          groupId = None\<rparr>"

definition sampleFormatHour :: "int \<Rightarrow> string" where
  "sampleFormatHour h =
     (if h = 0 then ''12 AM'' else if h = 12 then ''12 PM''
      else if h = 2 then ''2 AM'' else if h = 21 then ''9 PM'' else ''other'')"

text \<open>An overlap mask that wraps past midnight: true at the hours 0, 1, 21, 22 and 23.\<close>

definition wrapped :: "bool list" where
  "wrapped = [True, True] @ replicate 19 False @ [True, True, True]"

text \<open>A selection whose member is gone.\<close>

definition ghostSelected :: CurrentTeamUserState where
  "ghostSelected = \<lparr>memberId = Some ''gone'', source = Some Explicit,
                    dismissedSuggestions = [''m2'']\<rparr>"

text \<open>A cookie store and a parser, standing in for the platform's.\<close>

definition adminSession :: json where
  "adminSession = JObject [(''token'', JString ''abc''), (''role'', JString ''admin'')]"

definition sampleParse :: "string \<Rightarrow> js_exn + json" where
  "sampleParse raw =
     (if raw = ''valid'' then Inr adminSession
      else if raw = ''owner'' then Inr (JObject [(''token'', JString ''abc''), (''role'', JString ''owner'')])
      else if raw = ''list'' then Inr (JArray [])
      else Inl SyntaxError)"

definition sampleCookies :: "string \<Rightarrow> js_exn + string option" where
  "sampleCookies key =
     (if key = ''collab-time-session:t1'' then Inr (Some ''valid'')
      else if key = ''collab-time-session:t2'' then Inr (Some ''not json'')
      else if key = ''collab-time-session:t3'' then Inr (Some ''owner'')
      else if key = ''collab-time-session:t4'' then Inl StorageError
      else Inr None)"

definition adminToken :: TeamSession where
  "adminToken = \<lparr>token = ''tok'', session_role = Admin\<rparr>"

definition page0 :: Page where
  "page0 = \<lparr>cache = Some smallTeam, effects = []\<rparr>"

definition memberToken :: TeamSession where
  "memberToken = \<lparr>token = ''tok2'', session_role = Member\<rparr>"

definition memberView :: TeamData where
  "memberView = smallTeam\<lparr>role := Member\<rparr>"

text \<open>An \<^verbatim>\<open>updateMember\<close> action that always fails.\<close>

definition offline :: "UpdateMemberCall \<Rightarrow> ActionResult" where
  "offline call = Failure ''offline''"

section \<open>Properties of the reconciler\<close>

lemma list_ex_id_image: "list_ex (\<lambda>x. f x = i) ms = (i \<in> f ` set ms)"
  by (induction ms) auto

lemma client_memberAdded_ids:
  "map member_id (client_memberAdded m ms) =
     (if member_id m \<in> set (map member_id ms) then map member_id ms
      else map member_id ms @ [member_id m])"
  by (auto simp: client_memberAdded_def list_ex_id_image)

lemma client_memberAdded_twice:
  "client_memberAdded m (client_memberAdded m ms) = client_memberAdded m ms"
  by (auto simp: client_memberAdded_def list_ex_id_image)

lemma onData_memberAdded_Some:
  "onData_memberAdded m (Some p) =
     Some (p\<lparr>team := (team p)\<lparr>members := client_memberAdded m (members (team p))\<rparr>\<rparr>)"
  by (simp add: onData_memberAdded_def client_memberAdded_def)

lemma count_ids_distinct:
  "distinct (map member_id ms) \<Longrightarrow> i \<in> set (map member_id ms) \<Longrightarrow>
     length (filter (\<lambda>x. member_id x = i) ms) = 1"
proof (induction ms)
  case Nil
  then show ?case by simp
next
  case (Cons a ms)
  show ?case
  proof (cases "member_id a = i")
    case True
    with Cons.prems have "i \<notin> member_id ` set ms"
      by simp
    then have "filter (\<lambda>x. member_id x = i) ms = []"
      by (auto simp: filter_empty_conv)
    with True show ?thesis by simp
  next
    case False
    with Cons show ?thesis by auto
  qed
qed

text \<open>
  C4. \<^verbatim>\<open>memberAdded\<close> appends the payload only when no stored member has its id and
  returns the snapshot itself otherwise; a second delivery of the same event changes
  nothing; unique member ids stay unique, and after the event (delivered once or twice)
  a store with unique ids holds exactly one member with the payload's id.
\<close>

theorem memberAdded_idempotent_unique:
  "onData_memberAdded m (Some p) =
     (if member_id m \<in> member_id ` set (members (team p)) then Some p
      else Some (p\<lparr>team := (team p)\<lparr>members := members (team p) @ [m]\<rparr>\<rparr>))
   \<and> onData_memberAdded m (onData_memberAdded m prev) = onData_memberAdded m prev
   \<and> client_memberAdded m (client_memberAdded m ms) = client_memberAdded m ms
   \<and> client_memberAdded m ms =
       (if member_id m \<in> member_id ` set ms then ms else ms @ [m])
   \<and> (distinct (map member_id ms) \<longrightarrow>
        distinct (map member_id (client_memberAdded m ms))
        \<and> length (filter (\<lambda>x. member_id x = member_id m)
             (client_memberAdded m (client_memberAdded m ms))) = 1)
   \<and> (distinct (map member_id (members (team p))) \<longrightarrow>
        (\<exists>q. onData_memberAdded m (onData_memberAdded m (Some p)) = Some q
           \<and> distinct (map member_id (members (team q)))
           \<and> length (filter (\<lambda>x. member_id x = member_id m) (members (team q))) = 1))"
proof (intro conjI impI)
  show "onData_memberAdded m (Some p) =
     (if member_id m \<in> member_id ` set (members (team p)) then Some p
      else Some (p\<lparr>team := (team p)\<lparr>members := members (team p) @ [m]\<rparr>\<rparr>))"
    by (auto simp: onData_memberAdded_def list_ex_id_image)
  show "onData_memberAdded m (onData_memberAdded m prev) = onData_memberAdded m prev"
    by (cases prev) (auto simp: onData_memberAdded_def list_ex_id_image)
  show "client_memberAdded m (client_memberAdded m ms) = client_memberAdded m ms"
    by (rule client_memberAdded_twice)
  show "client_memberAdded m ms =
       (if member_id m \<in> member_id ` set ms then ms else ms @ [m])"
    by (auto simp: client_memberAdded_def list_ex_id_image)
next
  assume d: "distinct (map member_id ms)"
  have ids: "map member_id (client_memberAdded m ms) =
     (if member_id m \<in> set (map member_id ms) then map member_id ms
      else map member_id ms @ [member_id m])"
    by (rule client_memberAdded_ids)
  show d': "distinct (map member_id (client_memberAdded m ms))"
    using d by (simp add: ids)
  have "member_id m \<in> set (map member_id (client_memberAdded m ms))"
    by (simp add: ids)
  with d' have "length (filter (\<lambda>x. member_id x = member_id m) (client_memberAdded m ms)) = 1"
    by (rule count_ids_distinct)
  then show "length (filter (\<lambda>x. member_id x = member_id m)
             (client_memberAdded m (client_memberAdded m ms))) = 1"
    by (simp add: client_memberAdded_twice)
next
  assume d: "distinct (map member_id (members (team p)))"
  let ?ms = "members (team p)"
  let ?q = "p\<lparr>team := (team p)\<lparr>members := client_memberAdded m ?ms\<rparr>\<rparr>"
  have ids: "map member_id (client_memberAdded m ?ms) =
     (if member_id m \<in> set (map member_id ?ms) then map member_id ?ms
      else map member_id ?ms @ [member_id m])"
    by (rule client_memberAdded_ids)
  have d': "distinct (map member_id (client_memberAdded m ?ms))"
    using d by (simp add: ids)
  have "member_id m \<in> set (map member_id (client_memberAdded m ?ms))"
    by (simp add: ids)
  with d' have one: "length (filter (\<lambda>x. member_id x = member_id m) (client_memberAdded m ?ms)) = 1"
    by (rule count_ids_distinct)
  have "onData_memberAdded m (onData_memberAdded m (Some p)) = Some ?q"
    by (simp add: onData_memberAdded_Some client_memberAdded_twice)
  with d' one show "\<exists>q. onData_memberAdded m (onData_memberAdded m (Some p)) = Some q
           \<and> distinct (map member_id (members (team q)))
           \<and> length (filter (\<lambda>x. member_id x = member_id m) (members (team q))) = 1"
    by simp
qed

theorem memberAdded_idempotent_unique_witness:
  "onData_memberAdded ann (Some emptyTeam) =
     Some (emptyTeam\<lparr>team := (team emptyTeam)\<lparr>members := [ann]\<rparr>\<rparr>)
   \<and> onData_memberAdded ann (onData_memberAdded ann (Some emptyTeam)) =
     Some (emptyTeam\<lparr>team := (team emptyTeam)\<lparr>members := [ann]\<rparr>\<rparr>)
   \<and> length (filter (\<lambda>x. member_id x = member_id ann)
        (client_memberAdded ann (client_memberAdded ann []))) = 1"
proof -
  note T = memberAdded_idempotent_unique [of ann emptyTeam "Some emptyTeam" "[]"]
  have fresh: "member_id ann \<notin> member_id ` set (members (team emptyTeam))"
    by (simp add: emptyTeam_def)
  have nil: "members (team emptyTeam) = []"
    by (simp add: emptyTeam_def)
  from T fresh have once: "onData_memberAdded ann (Some emptyTeam) =
     Some (emptyTeam\<lparr>team := (team emptyTeam)\<lparr>members := members (team emptyTeam) @ [ann]\<rparr>\<rparr>)"
    by presburger
  from T have twice: "onData_memberAdded ann (onData_memberAdded ann (Some emptyTeam)) =
     onData_memberAdded ann (Some emptyTeam)"
    by blast
  have "distinct (map member_id ([] :: TeamMember list))"
    by simp
  with T have one: "length (filter (\<lambda>x. member_id x = member_id ann)
        (client_memberAdded ann (client_memberAdded ann []))) = 1"
    by blast
  from once twice one nil show ?thesis
    by simp
qed

subsection \<open>Removing a group\<close>

text \<open>
  C3. \<^verbatim>\<open>groupRemoved(g)\<close> drops the group \<open>g\<close> from the group list and keeps every
  member in place: the member list has the same length and order, a member of \<open>g\<close> is
  the same record with \<^verbatim>\<open>groupId\<close> cleared, every other member is untouched, and the
  team's id, name and the role are unchanged. The realtime branch and
  \<^verbatim>\<open>handleGroupRemoved\<close> agree.
\<close>

theorem groupRemoved_unassigns:
  "\<exists>q. onData_groupRemoved g (Some p) = Some q
      \<and> handleGroupRemoved g (Some p) = Some q
      \<and> groups (team q) = filter (\<lambda>x. group_id x \<noteq> g) (groups (team p))
      \<and> g \<notin> group_id ` set (groups (team q))
      \<and> length (members (team q)) = length (members (team p))
      \<and> map member_id (members (team q)) = map member_id (members (team p))
      \<and> (\<forall>i < length (members (team p)).
            members (team q) ! i =
              (if groupId (members (team p) ! i) = Some g
               then (members (team p) ! i)\<lparr>groupId := None\<rparr>
               else members (team p) ! i))
      \<and> team_id (team q) = team_id (team p)
      \<and> team_name (team q) = team_name (team p)
      \<and> role q = role p"
proof -
  let ?f = "\<lambda>m. if groupId m = Some g then m\<lparr>groupId := None\<rparr> else m"
  let ?q = "p\<lparr>team := (team p)
            \<lparr>groups := filter (\<lambda>x. group_id x \<noteq> g) (groups (team p)),
             members := map ?f (members (team p))\<rparr>\<rparr>"
  have a: "onData_groupRemoved g (Some p) = Some ?q"
    by (simp add: onData_groupRemoved_def)
  have b: "handleGroupRemoved g (Some p) = Some ?q"
    by (simp add: handleGroupRemoved_def)
  have c: "map member_id (map ?f (members (team p))) = map member_id (members (team p))"
    by (induction "members (team p)") auto
  have d: "\<forall>i < length (members (team p)). map ?f (members (team p)) ! i = ?f (members (team p) ! i)"
    by simp
  have e: "g \<notin> group_id ` set (filter (\<lambda>x. group_id x \<noteq> g) (groups (team p)))"
    by auto
  show ?thesis
    apply (rule exI [of _ ?q])
    using a b c d e by simp
qed

theorem groupRemoved_unassigns_witness:
  "onData_groupRemoved ''g1'' (Some smallTeam) =
     Some (smallTeam\<lparr>team := (team smallTeam)
             \<lparr>groups := [], members := [ann\<lparr>groupId := None\<rparr>, bob]\<rparr>\<rparr>)"
proof -
  obtain q where q: "onData_groupRemoved ''g1'' (Some smallTeam) = Some q"
    and m: "\<forall>i < length (members (team smallTeam)).
            members (team q) ! i =
              (if groupId (members (team smallTeam) ! i) = Some ''g1''
               then (members (team smallTeam) ! i)\<lparr>groupId := None\<rparr>
               else members (team smallTeam) ! i)"
    using groupRemoved_unassigns [of "''g1''" smallTeam] by blast
  from m have "members (team q) ! 0 = ann\<lparr>groupId := None\<rparr>"
    by (simp add: smallTeam_def ann_def)
  with q show ?thesis
    by (simp add: onData_groupRemoved_def smallTeam_def ann_def bob_def g1_def)
qed

subsection \<open>Reordering members\<close>

lemma Map_new_fold:
  "fold (\<lambda>(k, v) mp. mp(k \<mapsto> v)) es m0 k =
     (case map_of (rev es) k of None \<Rightarrow> m0 k | Some v \<Rightarrow> Some v)"
  by (induction es arbitrary: m0) (auto split: option.splits)

lemma Map_new_map_of: "Map_new es = map_of (rev es)"
  by (rule ext) (simp add: Map_new_def Map_new_fold split: option.splits)

lemma Map_new_members_SomeD:
  "Map_new (map (\<lambda>m. (member_id m, m)) ms) i = Some x \<Longrightarrow> x \<in> set ms \<and> member_id x = i"
  by (auto simp: Map_new_map_of dest!: map_of_SomeD)

lemma Map_new_members_None:
  "(Map_new (map (\<lambda>m. (member_id m, m)) ms) i = None) = (i \<notin> member_id ` set ms)"
  by (simp add: Map_new_map_of map_of_eq_None_iff image_image)

lemma Map_new_members_distinct:
  assumes "distinct (map member_id ms)" and "x \<in> set ms"
  shows "Map_new (map (\<lambda>m. (member_id m, m)) ms) (member_id x) = Some x"
proof -
  have "distinct (map fst (rev (map (\<lambda>m. (member_id m, m)) ms)))"
    using assms(1) by (simp add: rev_map [symmetric] comp_def distinct_rev)
  moreover have "(member_id x, x) \<in> set (rev (map (\<lambda>m. (member_id m, m)) ms))"
    using assms(2) by auto
  ultimately show ?thesis
    by (simp only: Map_new_map_of map_of_is_SomeI)
qed

lemma set_map_filter: "set (List.map_filter f xs) = {y. \<exists>x \<in> set xs. f x = Some y}"
  by (induction xs) (auto simp: map_filter_simps split: option.splits)

lemma reordered_ids:
  "map member_id (client_membersReordered ord ms) =
     filter (\<lambda>i. i \<in> member_id ` set ms) ord"
proof (induction ord)
  case Nil
  then show ?case by (simp add: client_membersReordered_def map_filter_simps)
next
  case (Cons i ord)
  show ?case
  proof (cases "Map_new (map (\<lambda>m. (member_id m, m)) ms) i")
    case None
    with Cons show ?thesis
      using Map_new_members_None [of ms i]
      by (simp add: client_membersReordered_def map_filter_simps)
  next
    case (Some x)
    with Cons show ?thesis
      using Map_new_members_None [of ms i] Map_new_members_SomeD [of ms i x]
      by (simp add: client_membersReordered_def map_filter_simps)
  qed
qed

text \<open>
  C2. \<^verbatim>\<open>membersReordered\<close> keeps exactly the members named by the order list, in the
  order list's sequence: the ids of the result are the order list without the ids that
  match no member, every member of the result is a stored member, and when the stored
  ids are unique the result holds every stored member whose id is in the order list and
  no other. Order \<open>[b, a]\<close> on store \<open>[a, b]\<close> gives \<open>[b, a]\<close>; order \<open>[b]\<close> gives \<open>[b]\<close>.
\<close>

theorem membersReordered_by_order:
  "map member_id (client_membersReordered ord ms) =
     filter (\<lambda>i. i \<in> member_id ` set ms) ord
   \<and> set (client_membersReordered ord ms) \<subseteq> {m \<in> set ms. member_id m \<in> set ord}
   \<and> (distinct (map member_id ms) \<longrightarrow>
        set (client_membersReordered ord ms) = {m \<in> set ms. member_id m \<in> set ord})
   \<and> (member_id a \<noteq> member_id b \<longrightarrow>
        client_membersReordered [member_id b, member_id a] [a, b] = [b, a]
        \<and> client_membersReordered [member_id b] [a, b] = [b])
   \<and> onData_membersReordered ord (Some p) =
       Some (p\<lparr>team := (team p)\<lparr>members := client_membersReordered ord (members (team p))\<rparr>\<rparr>)"
proof (intro conjI impI)
  show "map member_id (client_membersReordered ord ms) =
     filter (\<lambda>i. i \<in> member_id ` set ms) ord"
    by (rule reordered_ids)
  show sub: "set (client_membersReordered ord ms) \<subseteq> {m \<in> set ms. member_id m \<in> set ord}"
    by (auto simp: client_membersReordered_def set_map_filter dest: Map_new_members_SomeD)
  show "onData_membersReordered ord (Some p) =
       Some (p\<lparr>team := (team p)\<lparr>members := client_membersReordered ord (members (team p))\<rparr>\<rparr>)"
    by (simp add: onData_membersReordered_def client_membersReordered_def)
  {
    assume d: "distinct (map member_id ms)"
    have "{m \<in> set ms. member_id m \<in> set ord} \<subseteq> set (client_membersReordered ord ms)"
      using Map_new_members_distinct [OF d]
      by (auto simp: client_membersReordered_def set_map_filter)
    with sub show "set (client_membersReordered ord ms) = {m \<in> set ms. member_id m \<in> set ord}"
      by blast
  }
  {
    assume ne: "member_id a \<noteq> member_id b"
    then show "client_membersReordered [member_id b, member_id a] [a, b] = [b, a]"
      by (simp add: client_membersReordered_def Map_new_def map_filter_simps)
    from ne show "client_membersReordered [member_id b] [a, b] = [b]"
      by (simp add: client_membersReordered_def Map_new_def map_filter_simps)
  }
qed

theorem membersReordered_by_order_witness:
  "client_membersReordered [member_id bob, member_id ann] [ann, bob] = [bob, ann]
   \<and> client_membersReordered [member_id bob] [ann, bob] = [bob]
   \<and> set (client_membersReordered [member_id bob] [ann, bob]) =
       {m \<in> set [ann, bob]. member_id m \<in> set [member_id bob]}"
proof -
  note T = membersReordered_by_order [of "[member_id bob]" "[ann, bob]" ann bob smallTeam]
  have ne: "member_id ann \<noteq> member_id bob"
    by (simp add: ann_def bob_def)
  then have d: "distinct (map member_id [ann, bob])"
    by simp
  from T ne have "client_membersReordered [member_id bob, member_id ann] [ann, bob] = [bob, ann]"
    and "client_membersReordered [member_id bob] [ann, bob] = [bob]"
    by blast+
  moreover from T d have "set (client_membersReordered [member_id bob] [ann, bob]) =
       {m \<in> set [ann, bob]. member_id m \<in> set [member_id bob]}"
    by blast
  ultimately show ?thesis
    by blast
qed

section \<open>Properties of the overlap engine\<close>

lemma for_hours_spec:
  "0 \<le> h \<Longrightarrow> bound \<le> int (length hs) \<Longrightarrow>
     length (for_hours h bound hs) = length hs \<and>
     (\<forall>i < length hs. for_hours h bound hs ! i = (hs ! i \<or> (h \<le> int i \<and> int i < bound)))"
proof (induction h bound hs rule: for_hours.induct)
  case (1 h bound hours)
  show ?case
  proof (cases "h < bound")
    case False
    then have "for_hours h bound hours = hours"
      by (simp add: for_hours.simps [of h bound hours])
    with False show ?thesis by auto
  next
    case True
    with "1.prems" have inr: "nat h < length hours" by linarith
    then have set: "js_set hours h True = hours[nat h := True]"
      using "1.prems" by (simp add: js_set_def)
    have IH: "length (for_hours (h + 1) bound (hours[nat h := True])) = length hours \<and>
       (\<forall>i < length hours. for_hours (h + 1) bound (hours[nat h := True]) ! i =
           ((hours[nat h := True]) ! i \<or> (h + 1 \<le> int i \<and> int i < bound)))"
      using "1.IH" [OF True] "1.prems" set by simp
    have unf: "for_hours h bound hours = for_hours (h + 1) bound (hours[nat h := True])"
      using True set by (simp add: for_hours.simps [of h bound hours])
    show ?thesis
    proof (intro conjI allI impI)
      show "length (for_hours h bound hours) = length hours"
        using IH unf by simp
      fix i assume i: "i < length hours"
      have "for_hours h bound hours ! i =
           ((hours[nat h := True]) ! i \<or> (h + 1 \<le> int i \<and> int i < bound))"
        using IH unf i by simp
      also have "\<dots> = (hours ! i \<or> (h \<le> int i \<and> int i < bound))"
      proof (cases "i = nat h")
        case True
        with i \<open>h < bound\<close> "1.prems" show ?thesis by simp
      next
        case False
        with i "1.prems" show ?thesis by (auto simp: nth_list_update)
      qed
      finally show "for_hours h bound hours ! i = (hours ! i \<or> (h \<le> int i \<and> int i < bound))" .
    qed
  qed
qed

lemma for_hours_empty: "bound \<le> h \<Longrightarrow> for_hours h bound hs = hs"
  by (simp add: for_hours.simps [of h bound hs])

lemma hours_memberRow:
  assumes s: "s = convertHourToTimezone (workingHoursStart m) (timezone m) viewerTimezone"
    and e: "e = convertHourToTimezone (workingHoursEnd m) (timezone m) viewerTimezone"
    and rs: "0 \<le> s" "s < 24" and re: "0 \<le> e" "e < 24"
  shows "length (hours (memberRow convertHourToTimezone viewerTimezone m)) = 24
       \<and> (\<forall>h < 24. hours (memberRow convertHourToTimezone viewerTimezone m) ! h =
           (if s \<le> e then s \<le> int h \<and> int h < e else s \<le> int h \<or> int h < e))"
proof -
  let ?z = "replicate 24 False"
  have A: "length (for_hours s e ?z) = 24 \<and>
       (\<forall>i < 24. for_hours s e ?z ! i = (?z ! i \<or> (s \<le> int i \<and> int i < e)))"
    using for_hours_spec [of s e ?z] rs re by simp
  have B: "length (for_hours s 24 ?z) = 24 \<and>
       (\<forall>i < 24. for_hours s 24 ?z ! i = (?z ! i \<or> (s \<le> int i \<and> int i < 24)))"
    using for_hours_spec [of s 24 ?z] rs by simp
  have C: "length (for_hours 0 e (for_hours s 24 ?z)) = 24 \<and>
       (\<forall>i < 24. for_hours 0 e (for_hours s 24 ?z) ! i =
          (for_hours s 24 ?z ! i \<or> (0 \<le> int i \<and> int i < e)))"
    using for_hours_spec [of 0 e "for_hours s 24 ?z"] B re by simp
  have H: "hours (memberRow convertHourToTimezone viewerTimezone m) =
      (if s \<le> e then for_hours s e ?z else for_hours 0 e (for_hours s 24 ?z))"
    by (simp add: memberRow_def Let_def s e)
  show ?thesis
    using A B C H by simp
qed

text \<open>
  C1. With a viewer timezone, \<^verbatim>\<open>memberRows\<close> has one row for every member, in the
  members' order, and the row carries the member and a mask of 24 booleans. With \<open>s\<close>
  and \<open>e\<close> the member's start and end hour converted to the viewer's timezone (hours of
  the day, from 0 to 23, as \<^verbatim>\<open>convertHourToTimezone\<close> promises), the mask is true at
  hour \<open>h\<close> exactly when \<open>s \<le> h < e\<close> if \<open>s \<le> e\<close>, and exactly when \<open>h \<ge> s\<close> or
  \<open>h < e\<close> if \<open>s > e\<close> (the hours \<open>s..23\<close> and \<open>0..e-1\<close>).
\<close>

theorem member_mask_in_viewer_hours:
  assumes "vtz \<noteq> []" and "i < length ms"
    and "s = conv (workingHoursStart (ms ! i)) (timezone (ms ! i)) vtz"
    and "e = conv (workingHoursEnd (ms ! i)) (timezone (ms ! i)) vtz"
    and "0 \<le> s" "s < 24" "0 \<le> e" "e < 24"
  shows "length (memberRows conv ms vtz) = length ms
       \<and> row_member (memberRows conv ms vtz ! i) = ms ! i
       \<and> length (hours (memberRows conv ms vtz ! i)) = 24
       \<and> (\<forall>h < 24. hours (memberRows conv ms vtz ! i) ! h =
            (if s \<le> e then s \<le> int h \<and> int h < e else s \<le> int h \<or> int h < e))"
proof -
  have len: "length (memberRows conv ms vtz) = length ms"
    using assms(1) by (simp add: memberRows_def)
  have r: "memberRows conv ms vtz ! i = memberRow conv vtz (ms ! i)"
    using assms(1,2) by (simp add: memberRows_def)
  have "row_member (memberRow conv vtz (ms ! i)) = ms ! i"
    by (simp add: memberRow_def Let_def)
  with len r hours_memberRow [where convertHourToTimezone = conv and m = "ms ! i" and viewerTimezone = vtz, OF assms(3-8)] show ?thesis
    by simp
qed

theorem member_mask_in_viewer_hours_witness:
  "length (memberRows sampleConvert [ann, bob] ''Asia/Tokyo'') = 2
   \<and> row_member (memberRows sampleConvert [ann, bob] ''Asia/Tokyo'' ! 0) = ann
   \<and> hours (memberRows sampleConvert [ann, bob] ''Asia/Tokyo'' ! 0) ! 18 = True
   \<and> hours (memberRows sampleConvert [ann, bob] ''Asia/Tokyo'' ! 0) ! 23 = True
   \<and> hours (memberRows sampleConvert [ann, bob] ''Asia/Tokyo'' ! 0) ! 1 = True
   \<and> hours (memberRows sampleConvert [ann, bob] ''Asia/Tokyo'' ! 0) ! 2 = False
   \<and> hours (memberRows sampleConvert [ann, bob] ''Asia/Tokyo'' ! 0) ! 17 = False
   \<and> length (hours (memberRows sampleConvert [ann, bob] ''Asia/Tokyo'' ! 0)) = 24"
proof -
  have tz: "''Asia/Tokyo'' \<noteq> []"
    by simp
  have i: "0 < length [ann, bob]"
    by simp
  have s: "18 = sampleConvert (workingHoursStart ([ann, bob] ! 0)) (timezone ([ann, bob] ! 0)) ''Asia/Tokyo''"
    by (simp add: sampleConvert_def utcOffset_def ann_def)
  have e: "2 = sampleConvert (workingHoursEnd ([ann, bob] ! 0)) (timezone ([ann, bob] ! 0)) ''Asia/Tokyo''"
    by (simp add: sampleConvert_def utcOffset_def ann_def)
  from member_mask_in_viewer_hours
    [where vtz = "''Asia/Tokyo''" and ms = "[ann, bob]" and i = 0 and conv = sampleConvert
       and s = 18 and e = 2, OF tz i s e]
  show ?thesis
    by simp
qed

lemma overlapHours_all_false_left:
  "hours r = replicate 24 False \<Longrightarrow> overlapHours (Some r) other = replicate 24 False"
  by (cases other) (simp_all add: overlapHours_def js_get_def map_replicate_const)

lemma overlapHours_all_false_right:
  "hours r = replicate 24 False \<Longrightarrow> overlapHours other (Some r) = replicate 24 False"
  by (cases other) (simp_all add: overlapHours_def js_get_def map_replicate_const)

text \<open>
  C10. A member whose start and end hour convert to the same viewer-local hour, in
  particular one whose \<^verbatim>\<open>workingHoursStart\<close> equals \<^verbatim>\<open>workingHoursEnd\<close>, has an
  all-false mask of 24 hours, and every pairwise overlap mask with that member on either
  side is all false.
\<close>

theorem degenerate_window_never_working:
  assumes "r \<in> set (memberRows conv ms vtz)"
    and "workingHoursStart (row_member r) = workingHoursEnd (row_member r)
         \<or> conv (workingHoursStart (row_member r)) (timezone (row_member r)) vtz
           = conv (workingHoursEnd (row_member r)) (timezone (row_member r)) vtz"
  shows "hours r = replicate 24 False
       \<and> overlapHours (Some r) other = replicate 24 False
       \<and> overlapHours other (Some r) = replicate 24 False
       \<and> (\<forall>h < 24. \<not> overlapHours (Some r) other ! h \<and> \<not> overlapHours other (Some r) ! h)"
proof -
  from assms(1) obtain m where m: "r = memberRow conv vtz m"
    by (auto simp: memberRows_def split: if_splits)
  then have rm: "row_member r = m"
    by (simp add: memberRow_def Let_def)
  from assms(2) rm have eq: "conv (workingHoursStart m) (timezone m) vtz
           = conv (workingHoursEnd m) (timezone m) vtz"
    by auto
  have h: "hours r = replicate 24 False"
    by (simp add: m memberRow_def Let_def eq for_hours_empty)
  with overlapHours_all_false_left [OF h, of other] overlapHours_all_false_right [OF h, of other]
  show ?thesis by simp
qed

theorem degenerate_window_never_working_witness:
  "hours (memberRow sampleConvert ''UTC'' cy) = replicate 24 False
   \<and> overlapHours (Some (memberRow sampleConvert ''UTC'' cy))
        (Some (memberRow sampleConvert ''UTC'' ann)) = replicate 24 False"
proof -
  have a: "memberRow sampleConvert ''UTC'' cy \<in> set (memberRows sampleConvert [ann, cy] ''UTC'')"
    by (simp add: memberRows_def)
  have b: "workingHoursStart (row_member (memberRow sampleConvert ''UTC'' cy))
         = workingHoursEnd (row_member (memberRow sampleConvert ''UTC'' cy))"
    by (simp add: memberRow_def Let_def cy_def)
  from degenerate_window_never_working [OF a disjI1 [OF b]] show ?thesis
    by simp
qed

subsection \<open>The overlap summary\<close>

lemma findIndex_from_none:
  "(\<forall>j < length xs. \<not> xs ! j) \<Longrightarrow> findIndex_from xs i = - 1"
proof (induction xs arbitrary: i)
  case Nil
  then show ?case by simp
next
  case (Cons x xs)
  from Cons.prems have "\<not> x" by auto
  moreover from Cons.prems have "\<forall>j < length xs. \<not> xs ! j" by auto
  ultimately show ?case using Cons.IH by simp
qed

lemma findIndex_from_first:
  "a < length xs \<Longrightarrow> xs ! a \<Longrightarrow> (\<forall>j < a. \<not> xs ! j) \<Longrightarrow> findIndex_from xs i = i + int a"
proof (induction xs arbitrary: i a)
  case Nil
  then show ?case by simp
next
  case (Cons x xs)
  show ?case
  proof (cases a)
    case 0
    with Cons.prems show ?thesis by simp
  next
    case (Suc b)
    with Cons.prems have "\<not> x" by auto
    moreover from Suc Cons.prems have "b < length xs" "xs ! b" "\<forall>j < b. \<not> xs ! j"
      by auto
    ultimately show ?thesis using Cons.IH [of b "i + 1"] Suc by simp
  qed
qed

lemma lastIndexOf_from_none:
  "(\<forall>j < length xs. \<not> xs ! j) \<Longrightarrow> lastIndexOf_from xs i = - 1"
proof (induction xs arbitrary: i)
  case Nil
  then show ?case by simp
next
  case (Cons x xs)
  from Cons.prems have "\<not> x" by auto
  moreover from Cons.prems have "\<forall>j < length xs. \<not> xs ! j" by auto
  ultimately show ?case using Cons.IH by simp
qed

lemma lastIndexOf_from_first:
  "a < length xs \<Longrightarrow> xs ! a \<Longrightarrow> (\<forall>j < a. \<not> xs ! j) \<Longrightarrow> lastIndexOf_from xs i = i - int a"
proof (induction xs arbitrary: i a)
  case Nil
  then show ?case by simp
next
  case (Cons x xs)
  show ?case
  proof (cases a)
    case 0
    with Cons.prems show ?thesis by simp
  next
    case (Suc b)
    with Cons.prems have "\<not> x" by auto
    moreover from Suc Cons.prems have "b < length xs" "xs ! b" "\<forall>j < b. \<not> xs ! j"
      by auto
    ultimately show ?thesis using Cons.IH [of b "i - 1"] Suc by simp
  qed
qed

lemma lastIndexOf_true_last:
  assumes "l < length xs" "xs ! l" "\<forall>j. l < j \<and> j < length xs \<longrightarrow> \<not> xs ! j"
  shows "lastIndexOf_true xs = int l"
proof -
  let ?k = "length xs - 1 - l"
  have k: "?k < length (rev xs)" using assms(1) by simp
  have at: "rev xs ! ?k" using assms(1,2) by (simp add: rev_nth)
  have before: "\<forall>j < ?k. \<not> rev xs ! j"
  proof (intro allI impI)
    fix j assume j: "j < ?k"
    then have "rev xs ! j = xs ! (length xs - Suc j)"
      using assms(1) by (simp add: rev_nth)
    moreover have "l < length xs - Suc j \<and> length xs - Suc j < length xs"
      using j assms(1) by linarith
    ultimately show "\<not> rev xs ! j" using assms(3) by simp
  qed
  have "lastIndexOf_from (rev xs) (int (length xs) - 1) = int (length xs) - 1 - int ?k"
    by (rule lastIndexOf_from_first [OF k at before])
  also have "\<dots> = int l" using assms(1) by linarith
  finally show ?thesis by (simp add: lastIndexOf_true_def)
qed

lemma first_true_exists:
  "\<exists>j < length xs. xs ! j \<Longrightarrow> \<exists>a < length xs. xs ! a \<and> (\<forall>j < a. \<not> xs ! j)"
proof -
  assume ex: "\<exists>j < length xs. xs ! j"
  let ?P = "\<lambda>j. j < length xs \<and> xs ! j"
  from ex have least: "?P (LEAST j. ?P j)" using LeastI_ex [of ?P] by blast
  moreover have "\<forall>j < (LEAST j. ?P j). \<not> xs ! j"
  proof (intro allI impI notI)
    fix j assume "j < (LEAST j. ?P j)" "xs ! j"
    moreover from this least have "?P j" by simp
    ultimately show False using not_less_Least by blast
  qed
  ultimately show ?thesis using least by blast
qed

lemma last_true_exists:
  assumes "\<exists>j < length xs. xs ! j"
  shows "\<exists>l < length xs. xs ! l \<and> (\<forall>j. l < j \<and> j < length xs \<longrightarrow> \<not> xs ! j)"
proof -
  from assms obtain j where j: "j < length xs" "xs ! j" by blast
  then have "length xs - 1 - j < length (rev xs)" "rev xs ! (length xs - 1 - j)"
    by (simp_all add: rev_nth)
  then have "\<exists>k < length (rev xs). rev xs ! k" by blast
  from first_true_exists [OF this] obtain a where a: "a < length xs" "rev xs ! a"
    "\<forall>k < a. \<not> rev xs ! k" by auto
  let ?l = "length xs - 1 - a"
  have "?l < length xs" using a(1) by simp
  moreover have "xs ! ?l" using a(1,2) by (simp add: rev_nth)
  moreover have "\<forall>j. ?l < j \<and> j < length xs \<longrightarrow> \<not> xs ! j"
  proof (intro allI impI)
    fix j assume j: "?l < j \<and> j < length xs"
    then have "length xs - 1 - j < a" using a(1) by linarith
    with a(3) have n: "\<not> rev xs ! (length xs - 1 - j)" by blast
    have lt: "length xs - 1 - j < length xs" using j by linarith
    have idx: "length xs - Suc (length xs - 1 - j) = j" using j by linarith
    have "rev xs ! (length xs - 1 - j) = xs ! j"
      using rev_nth [OF lt] idx by simp
    with n show "\<not> xs ! j" by simp
  qed
  ultimately show ?thesis by blast
qed

lemma summary_window:
  assumes "a < length xs" "xs ! a" "\<forall>j < a. \<not> xs ! j"
    and "l < length xs" "xs ! l" "\<forall>j. l < j \<and> j < length xs \<longrightarrow> \<not> xs ! j"
  shows "overlapSummary fh xs =
           fh (int a) @ [CHR '' ''] @ summary_separator @ [CHR '' ''] @ fh ((int l + 1) mod 24)"
proof -
  have "findIndex xs = int a"
    using findIndex_from_first [OF assms(1-3), of 0] by (simp add: findIndex_def)
  moreover have "lastIndexOf_true xs = int l"
    by (rule lastIndexOf_true_last [OF assms(4-6)])
  ultimately show ?thesis
    by (simp add: overlapSummary_def Let_def)
qed

lemma summary_none:
  assumes "\<forall>j < length xs. \<not> xs ! j"
  shows "overlapSummary fh xs = ''No overlap in your time''"
  using findIndex_from_none [OF assms, of 0] by (simp add: overlapSummary_def Let_def findIndex_def)

lemma window_text_not_none:
  "u @ [CHR '' ''] @ summary_separator @ [CHR '' ''] @ v \<noteq> ''No overlap in your time''"
proof
  assume "u @ [CHR '' ''] @ summary_separator @ [CHR '' ''] @ v = ''No overlap in your time''"
  then have "set (u @ [CHR '' ''] @ summary_separator @ [CHR '' ''] @ v) = set ''No overlap in your time''"
    by simp
  moreover have "CHR 0xE2 \<in> set (u @ [CHR '' ''] @ summary_separator @ [CHR '' ''] @ v)"
    by (simp add: summary_separator_def)
  ultimately have "CHR 0xE2 \<in> set ''No overlap in your time''" by blast
  then show False by simp
qed

text \<open>
  C5. The summary is the text \<^verbatim>\<open>No overlap in your time\<close> exactly when no element of
  the mask is true. Otherwise it names the first true index \<open>a\<close> and, as exclusive end,
  the last true index \<open>l\<close> plus one modulo 24, whatever lies between \<open>a\<close> and \<open>l\<close>.
\<close>

theorem overlap_summary_first_last:
  "(overlapSummary fh xs = ''No overlap in your time'') = (\<forall>j < length xs. \<not> xs ! j)
   \<and> ((\<exists>j < length xs. xs ! j) \<longrightarrow>
        (\<exists>a l. a < length xs \<and> xs ! a \<and> (\<forall>j < a. \<not> xs ! j)
             \<and> l < length xs \<and> xs ! l \<and> (\<forall>j. l < j \<and> j < length xs \<longrightarrow> \<not> xs ! j)
             \<and> overlapSummary fh xs =
                 fh (int a) @ [CHR '' ''] @ summary_separator @ [CHR '' ''] @ fh ((int l + 1) mod 24)))"
proof -
  have win: "\<exists>a l. a < length xs \<and> xs ! a \<and> (\<forall>j < a. \<not> xs ! j)
             \<and> l < length xs \<and> xs ! l \<and> (\<forall>j. l < j \<and> j < length xs \<longrightarrow> \<not> xs ! j)
             \<and> overlapSummary fh xs =
                 fh (int a) @ [CHR '' ''] @ summary_separator @ [CHR '' ''] @ fh ((int l + 1) mod 24)"
    if ex: "\<exists>j < length xs. xs ! j"
  proof -
    from first_true_exists [OF ex] obtain a where a: "a < length xs" "xs ! a" "\<forall>j < a. \<not> xs ! j"
      by blast
    from last_true_exists [OF ex] obtain l where l: "l < length xs" "xs ! l"
      "\<forall>j. l < j \<and> j < length xs \<longrightarrow> \<not> xs ! j" by blast
    from summary_window [OF a l] a l show ?thesis by blast
  qed
  have "(overlapSummary fh xs = ''No overlap in your time'') = (\<forall>j < length xs. \<not> xs ! j)"
  proof
    assume n: "overlapSummary fh xs = ''No overlap in your time''"
    show "\<forall>j < length xs. \<not> xs ! j"
    proof (rule ccontr)
      assume "\<not> (\<forall>j < length xs. \<not> xs ! j)"
      then have "\<exists>j < length xs. xs ! j" by blast
      from win [OF this] n show False using window_text_not_none by metis
    qed
  next
    assume "\<forall>j < length xs. \<not> xs ! j"
    then show "overlapSummary fh xs = ''No overlap in your time''" by (rule summary_none)
  qed
  with win show ?thesis by blast
qed

theorem overlap_summary_first_last_witness:
  "overlapSummary sampleFormatHour wrapped =
     ''12 AM'' @ [CHR '' ''] @ summary_separator @ [CHR '' ''] @ ''12 AM''
   \<and> overlapSummary sampleFormatHour wrapped \<noteq> ''No overlap in your time''"
proof -
  note T = overlap_summary_first_last [of sampleFormatHour wrapped]
  have len: "length wrapped = 24"
    by (simp add: wrapped_def)
  have w0: "wrapped ! 0" and w23: "wrapped ! 23"
    by (simp_all add: wrapped_def nth_append)
  have ex: "\<exists>j < length wrapped. wrapped ! j"
  proof (intro exI conjI)
    show "0 < length wrapped" using len by simp
    show "wrapped ! 0" by (rule w0)
  qed
  with T obtain a l where a: "\<forall>j < a. \<not> wrapped ! j"
    and l: "l < length wrapped" "\<forall>j. l < j \<and> j < length wrapped \<longrightarrow> \<not> wrapped ! j"
    and res: "overlapSummary sampleFormatHour wrapped =
       sampleFormatHour (int a) @ [CHR '' ''] @ summary_separator @ [CHR '' '']
         @ sampleFormatHour ((int l + 1) mod 24)"
    by blast
  have a0: "a = 0"
  proof (rule ccontr)
    assume "a \<noteq> 0"
    then have "0 < a" by simp
    with a w0 show False by blast
  qed
  have l23: "l = 23"
  proof (rule ccontr)
    assume "l \<noteq> 23"
    with l(1) len have "l < 23 \<and> 23 < length wrapped" by simp
    with l(2) w23 show False by blast
  qed
  from T ex have "overlapSummary sampleFormatHour wrapped \<noteq> ''No overlap in your time''"
    by blast
  with res a0 l23 show ?thesis
    by (simp add: sampleFormatHour_def)
qed

section \<open>Properties of the local identity resolver\<close>

lemma suggestedUser_Some_iff:
  "(suggestedUser st ms vtz = Some m) =
     (\<not> truthy (memberId st) \<and> vtz \<noteq> []
      \<and> filter (\<lambda>x. timezone x = vtz) ms = [m]
      \<and> member_id m \<notin> set (dismissedSuggestions st))"
proof (cases "length (filter (\<lambda>x. timezone x = vtz) ms) = 1")
  case True
  then obtain x where x: "filter (\<lambda>x. timezone x = vtz) ms = [x]"
    by (auto simp: length_Suc_conv)
  then show ?thesis
    by (auto simp: suggestedUser_def Let_def)
next
  case False
  then have "filter (\<lambda>x. timezone x = vtz) ms \<noteq> [m]"
    by auto
  with False show ?thesis
    by (simp add: suggestedUser_def Let_def)
qed

text \<open>
  C6. Every member's timezone is the name of a timezone, so it is not the empty string.
  Then, for every viewer timezone and resolver state, a member is suggested exactly when
  no member is selected, exactly one member's timezone string equals the viewer's
  timezone, and that member's id is not among the dismissed suggestions; the suggestion
  is that one member, and after \<^verbatim>\<open>dismissSuggestion\<close> of its id nothing is suggested
  although the timezone still matches.
\<close>

theorem suggestion_offered_iff:
  assumes "\<forall>x \<in> set ms. timezone x \<noteq> []"
  shows "(suggestedUser st ms vtz = Some m) =
           (\<not> truthy (memberId st)
            \<and> filter (\<lambda>x. timezone x = vtz) ms = [m]
            \<and> member_id m \<notin> set (dismissedSuggestions st))
       \<and> (suggestedUser st ms vtz \<noteq> None) =
           (\<not> truthy (memberId st)
            \<and> (\<exists>y. filter (\<lambda>x. timezone x = vtz) ms = [y]
                   \<and> member_id y \<notin> set (dismissedSuggestions st)))
       \<and> (suggestedUser st ms vtz = Some m \<longrightarrow>
            suggestedUser (dismissSuggestion (member_id m) st) ms vtz = None
            \<and> filter (\<lambda>x. timezone x = vtz) ms = [m])"
proof -
  have named: "vtz \<noteq> []" if f: "filter (\<lambda>x. timezone x = vtz) ms = [y]" for y
  proof -
    have "y \<in> set (filter (\<lambda>x. timezone x = vtz) ms)"
      by (simp add: f)
    then have "y \<in> set ms" and "timezone y = vtz"
      by simp_all
    with assms show ?thesis by blast
  qed
  have some: "(suggestedUser st ms vtz = Some y) =
           (\<not> truthy (memberId st)
            \<and> filter (\<lambda>x. timezone x = vtz) ms = [y]
            \<and> member_id y \<notin> set (dismissedSuggestions st))" for y
    using named [of y] by (auto simp: suggestedUser_Some_iff)
  have ex: "(suggestedUser st ms vtz \<noteq> None) =
           (\<not> truthy (memberId st)
            \<and> (\<exists>y. filter (\<lambda>x. timezone x = vtz) ms = [y]
                   \<and> member_id y \<notin> set (dismissedSuggestions st)))"
  proof -
    have "(suggestedUser st ms vtz \<noteq> None) = (\<exists>y. suggestedUser st ms vtz = Some y)"
      by auto
    then show ?thesis
      by (simp only: some) blast
  qed
  have dis: "suggestedUser (dismissSuggestion (member_id m) st) ms vtz = None
            \<and> filter (\<lambda>x. timezone x = vtz) ms = [m]"
    if s: "suggestedUser st ms vtz = Some m"
  proof -
    from s have f: "filter (\<lambda>x. timezone x = vtz) ms = [m]"
      by (simp add: suggestedUser_Some_iff)
    have "suggestedUser (dismissSuggestion (member_id m) st) ms vtz = None"
    proof (cases "suggestedUser (dismissSuggestion (member_id m) st) ms vtz")
      case None
      then show ?thesis .
    next
      case (Some y)
      then have "filter (\<lambda>x. timezone x = vtz) ms = [y]"
        and "member_id y \<notin> set (dismissedSuggestions (dismissSuggestion (member_id m) st))"
        by (simp_all add: suggestedUser_Some_iff)
      with f show ?thesis
        by (simp add: dismissSuggestion_def)
    qed
    with f show ?thesis by simp
  qed
  from some [of m] ex dis show ?thesis
    by blast
qed

theorem suggestion_offered_iff_witness:
  "suggestedUser DEFAULT_STATE [ann, bob] ''UTC'' = Some ann
   \<and> suggestedUser (dismissSuggestion (member_id ann) DEFAULT_STATE) [ann, bob] ''UTC'' = None"
proof -
  have named: "\<forall>x \<in> set [ann, bob]. timezone x \<noteq> []"
    by (simp add: ann_def bob_def)
  note T = suggestion_offered_iff [OF named, of DEFAULT_STATE "''UTC''" ann]
  have a: "\<not> truthy (memberId DEFAULT_STATE)"
    by (simp add: DEFAULT_STATE_def truthy_def)
  have b: "filter (\<lambda>x. timezone x = ''UTC'') [ann, bob] = [ann]"
    by (simp add: ann_def bob_def)
  have c: "member_id ann \<notin> set (dismissedSuggestions DEFAULT_STATE)"
    by (simp add: DEFAULT_STATE_def)
  from T a b c have "suggestedUser DEFAULT_STATE [ann, bob] ''UTC'' = Some ann"
    by blast
  with T show ?thesis
    by blast
qed

subsection \<open>Clearing a stale selection\<close>

lemma currentUser_None_iff:
  "truthy (memberId st) \<Longrightarrow>
     (currentUser st ms = None) = (\<forall>m \<in> set ms. Some (member_id m) \<noteq> memberId st)"
  by (auto simp: currentUser_def find_None_iff)

text \<open>
  C7. When a member id is selected (the hook takes \<^verbatim>\<open>null\<close> and the empty string alike
  as no selection), the member list is not empty and no member has that id, the effect
  resets \<^verbatim>\<open>memberId\<close> and \<^verbatim>\<open>source\<close> to null. The dismissed suggestions are never
  touched, nothing is cleared while the member list is empty, and a selection that
  matches a member stays.
\<close>

theorem stale_selection_cleared:
  "(truthy (memberId st) \<and> ms \<noteq> [] \<and> (\<forall>m \<in> set ms. Some (member_id m) \<noteq> memberId st) \<longrightarrow>
      clearingEffect st ms = st\<lparr>memberId := None, source := None\<rparr>
      \<and> memberId (clearingEffect st ms) = None
      \<and> source (clearingEffect st ms) = None)
   \<and> dismissedSuggestions (clearingEffect st ms) = dismissedSuggestions st
   \<and> clearingEffect st [] = st
   \<and> ((\<exists>m \<in> set ms. Some (member_id m) = memberId st) \<longrightarrow> clearingEffect st ms = st)"
proof (intro conjI impI)
  assume a: "truthy (memberId st) \<and> ms \<noteq> [] \<and> (\<forall>m \<in> set ms. Some (member_id m) \<noteq> memberId st)"
  then have "currentUser st ms = None"
    by (simp add: currentUser_None_iff)
  with a show c: "clearingEffect st ms = st\<lparr>memberId := None, source := None\<rparr>"
    by (simp add: clearingEffect_def)
  from c show "memberId (clearingEffect st ms) = None" by simp
  from c show "source (clearingEffect st ms) = None" by simp
next
  show "dismissedSuggestions (clearingEffect st ms) = dismissedSuggestions st"
    by (simp add: clearingEffect_def)
  show "clearingEffect st [] = st"
    by (simp add: clearingEffect_def)
next
  assume "\<exists>m \<in> set ms. Some (member_id m) = memberId st"
  then have "truthy (memberId st) \<longrightarrow> currentUser st ms \<noteq> None"
    by (auto simp: currentUser_None_iff)
  then show "clearingEffect st ms = st"
    by (auto simp: clearingEffect_def)
qed

theorem stale_selection_cleared_witness:
  "clearingEffect ghostSelected [ann, bob] =
     \<lparr>memberId = None, source = None, dismissedSuggestions = [''m2'']\<rparr>
   \<and> clearingEffect ghostSelected [] = ghostSelected"
proof -
  note T = stale_selection_cleared [of ghostSelected "[ann, bob]"]
  have "truthy (memberId ghostSelected) \<and> [ann, bob] \<noteq> []
      \<and> (\<forall>m \<in> set [ann, bob]. Some (member_id m) \<noteq> memberId ghostSelected)"
    by (simp add: ghostSelected_def truthy_def ann_def bob_def)
  with T have "clearingEffect ghostSelected [ann, bob] = ghostSelected\<lparr>memberId := None, source := None\<rparr>"
    by blast
  moreover from T have "clearingEffect ghostSelected [] = ghostSelected"
    by blast
  ultimately show ?thesis
    by (simp add: ghostSelected_def)
qed

section \<open>Properties of the session gate\<close>

lemma isTeamSession_iff:
  "isTeamSession v =
     (\<exists>fs tok. v = JObject fs \<and> map_of fs ''token'' = Some (JString tok)
        \<and> (map_of fs ''role'' = Some (JString ''admin'')
             \<or> map_of fs ''role'' = Some (JString ''member'')))"
proof (cases v)
  case (JObject fs)
  show ?thesis
  proof (cases "map_of fs ''token''")
    case None
    with JObject show ?thesis by (simp add: isTeamSession_def)
  next
    case (Some t)
    with JObject show ?thesis by (cases t) (simp_all add: isTeamSession_def)
  qed
qed (simp_all add: isTeamSession_def)

lemma read_try_cases:
  "readTeamSession_try get parse t = Inr (Some v) \<longleftrightarrow>
     (\<exists>raw. get (getTeamSessionKey t) = Inr (Some raw) \<and> raw \<noteq> [] \<and> parse raw = Inr v
        \<and> isTeamSession v)"
  by (auto simp: readTeamSession_try_def split: sum.splits option.splits if_splits)

lemma client_read_try_cases:
  "client_readTeamSession_try get parse t = Inr (Some v) \<longleftrightarrow>
     (\<exists>raw. get (client_getTeamSessionKey t) = Inr (Some raw) \<and> raw \<noteq> [] \<and> parse raw = Inr v
        \<and> isTeamSession v)"
  by (auto simp: client_readTeamSession_try_def split: sum.splits option.splits if_splits)

lemma read_Some_iff:
  "readTeamSession get parse t = Inr (Some v) \<longleftrightarrow>
     (\<exists>raw. get (getTeamSessionKey t) = Inr (Some raw) \<and> raw \<noteq> [] \<and> parse raw = Inr v
        \<and> isTeamSession v)"
proof -
  have "readTeamSession get parse t = Inr (Some v) \<longleftrightarrow>
          readTeamSession_try get parse t = Inr (Some v)"
    by (simp add: readTeamSession_def split: sum.splits)
  then show ?thesis by (simp add: read_try_cases)
qed

lemma client_read_Some_iff:
  "client_readTeamSession get parse t = Inr (Some v) \<longleftrightarrow>
     (\<exists>raw. get (client_getTeamSessionKey t) = Inr (Some raw) \<and> raw \<noteq> [] \<and> parse raw = Inr v
        \<and> isTeamSession v)"
proof -
  have "client_readTeamSession get parse t = Inr (Some v) \<longleftrightarrow>
          client_readTeamSession_try get parse t = Inr (Some v)"
    by (simp add: client_readTeamSession_def split: sum.splits)
  then show ?thesis by (simp add: client_read_try_cases)
qed

lemma read_never_raises: "\<exists>r. readTeamSession get parse t = Inr r"
  by (simp add: readTeamSession_def split: sum.splits)

lemma client_read_never_raises: "\<exists>r. client_readTeamSession get parse t = Inr r"
  by (simp add: client_readTeamSession_def split: sum.splits)

text \<open>
  C9. \<^verbatim>\<open>readTeamSession\<close> never raises: its result is always a value. It is null when
  the stored value is absent, when it is not valid JSON, and when it parses to something
  that is no session; it is a session only when the stored value parses to an object
  with a string \<^verbatim>\<open>token\<close> and \<^verbatim>\<open>role\<close> equal to \<^verbatim>\<open>admin\<close> or \<^verbatim>\<open>member\<close>, and then
  it is the parsed object. The same holds of the client variant under its own key.
\<close>

theorem readTeamSession_tolerant:
  "(\<exists>r. readTeamSession get parse t = Inr r)
   \<and> (get (getTeamSessionKey t) = Inr None \<longrightarrow> readTeamSession get parse t = Inr None)
   \<and> (get (getTeamSessionKey t) = Inr (Some raw) \<and> (\<exists>e. parse raw = Inl e) \<longrightarrow>
        readTeamSession get parse t = Inr None)
   \<and> (get (getTeamSessionKey t) = Inr (Some raw) \<and> parse raw = Inr v \<and> \<not> isTeamSession v \<longrightarrow>
        readTeamSession get parse t = Inr None)
   \<and> (readTeamSession get parse t = Inr (Some v) \<longleftrightarrow>
        (\<exists>raw. get (getTeamSessionKey t) = Inr (Some raw) \<and> raw \<noteq> [] \<and> parse raw = Inr v
           \<and> isTeamSession v))
   \<and> (isTeamSession v \<longleftrightarrow>
        (\<exists>fs tok. v = JObject fs \<and> map_of fs ''token'' = Some (JString tok)
           \<and> (map_of fs ''role'' = Some (JString ''admin'')
                \<or> map_of fs ''role'' = Some (JString ''member''))))
   \<and> (\<exists>r. client_readTeamSession get parse t = Inr r)
   \<and> (get (client_getTeamSessionKey t) = Inr None \<longrightarrow>
        client_readTeamSession get parse t = Inr None)
   \<and> (get (client_getTeamSessionKey t) = Inr (Some raw) \<and> (\<exists>e. parse raw = Inl e) \<longrightarrow>
        client_readTeamSession get parse t = Inr None)
   \<and> (get (client_getTeamSessionKey t) = Inr (Some raw) \<and> parse raw = Inr v \<and> \<not> isTeamSession v \<longrightarrow>
        client_readTeamSession get parse t = Inr None)
   \<and> (client_readTeamSession get parse t = Inr (Some v) \<longleftrightarrow>
        (\<exists>raw. get (client_getTeamSessionKey t) = Inr (Some raw) \<and> raw \<noteq> [] \<and> parse raw = Inr v
           \<and> isTeamSession v))"
proof (intro conjI impI)
  show "\<exists>r. readTeamSession get parse t = Inr r"
    by (rule read_never_raises)
  show "\<exists>r. client_readTeamSession get parse t = Inr r"
    by (rule client_read_never_raises)
  show "isTeamSession v \<longleftrightarrow>
        (\<exists>fs tok. v = JObject fs \<and> map_of fs ''token'' = Some (JString tok)
           \<and> (map_of fs ''role'' = Some (JString ''admin'')
                \<or> map_of fs ''role'' = Some (JString ''member'')))"
    by (rule isTeamSession_iff)
  show "readTeamSession get parse t = Inr (Some v) \<longleftrightarrow>
        (\<exists>raw. get (getTeamSessionKey t) = Inr (Some raw) \<and> raw \<noteq> [] \<and> parse raw = Inr v
           \<and> isTeamSession v)"
    by (rule read_Some_iff)
  show "client_readTeamSession get parse t = Inr (Some v) \<longleftrightarrow>
        (\<exists>raw. get (client_getTeamSessionKey t) = Inr (Some raw) \<and> raw \<noteq> [] \<and> parse raw = Inr v
           \<and> isTeamSession v)"
    by (rule client_read_Some_iff)
next
  assume "get (getTeamSessionKey t) = Inr None"
  then show "readTeamSession get parse t = Inr None"
    by (simp add: readTeamSession_def readTeamSession_try_def)
next
  assume "get (getTeamSessionKey t) = Inr (Some raw) \<and> (\<exists>e. parse raw = Inl e)"
  then show "readTeamSession get parse t = Inr None"
    by (auto simp: readTeamSession_def readTeamSession_try_def)
next
  assume "get (getTeamSessionKey t) = Inr (Some raw) \<and> parse raw = Inr v \<and> \<not> isTeamSession v"
  then show "readTeamSession get parse t = Inr None"
    by (auto simp: readTeamSession_def readTeamSession_try_def)
next
  assume "get (client_getTeamSessionKey t) = Inr None"
  then show "client_readTeamSession get parse t = Inr None"
    by (simp add: client_readTeamSession_def client_readTeamSession_try_def)
next
  assume "get (client_getTeamSessionKey t) = Inr (Some raw) \<and> (\<exists>e. parse raw = Inl e)"
  then show "client_readTeamSession get parse t = Inr None"
    by (auto simp: client_readTeamSession_def client_readTeamSession_try_def)
next
  assume "get (client_getTeamSessionKey t) = Inr (Some raw) \<and> parse raw = Inr v \<and> \<not> isTeamSession v"
  then show "client_readTeamSession get parse t = Inr None"
    by (auto simp: client_readTeamSession_def client_readTeamSession_try_def)
qed

theorem readTeamSession_tolerant_witness:
  "readTeamSession sampleCookies sampleParse ''t2'' = Inr None
   \<and> readTeamSession sampleCookies sampleParse ''t3'' = Inr None
   \<and> readTeamSession sampleCookies sampleParse ''t5'' = Inr None
   \<and> readTeamSession sampleCookies sampleParse ''t1'' = Inr (Some adminSession)"
proof -
  have k: "getTeamSessionKey ''t1'' = ''collab-time-session:t1''"
    "getTeamSessionKey ''t2'' = ''collab-time-session:t2''"
    "getTeamSessionKey ''t3'' = ''collab-time-session:t3''"
    "getTeamSessionKey ''t5'' = ''collab-time-session:t5''"
    by (simp_all add: getTeamSessionKey_def TEAM_SESSION_PREFIX_def)
  have "sampleCookies (getTeamSessionKey ''t2'') = Inr (Some ''not json'')
        \<and> (\<exists>e. sampleParse ''not json'' = Inl e)"
    by (simp add: k sampleCookies_def sampleParse_def)
  with readTeamSession_tolerant [of sampleCookies sampleParse "''t2''" "''not json''"]
  have 2: "readTeamSession sampleCookies sampleParse ''t2'' = Inr None"
    by blast
  let ?owner = "JObject [(''token'', JString ''abc''), (''role'', JString ''owner'')]"
  have "sampleCookies (getTeamSessionKey ''t3'') = Inr (Some ''owner'')
        \<and> sampleParse ''owner'' = Inr ?owner \<and> \<not> isTeamSession ?owner"
    by (simp add: k sampleCookies_def sampleParse_def isTeamSession_def)
  with readTeamSession_tolerant [of sampleCookies sampleParse "''t3''" "''owner''" ?owner]
  have 3: "readTeamSession sampleCookies sampleParse ''t3'' = Inr None"
    by blast
  have "sampleCookies (getTeamSessionKey ''t5'') = Inr None"
    by (simp add: k sampleCookies_def)
  with readTeamSession_tolerant [of sampleCookies sampleParse "''t5''"]
  have 5: "readTeamSession sampleCookies sampleParse ''t5'' = Inr None"
    by blast
  have "sampleCookies (getTeamSessionKey ''t1'') = Inr (Some ''valid'') \<and> ''valid'' \<noteq> []
        \<and> sampleParse ''valid'' = Inr adminSession \<and> isTeamSession adminSession"
    by (simp add: k sampleCookies_def sampleParse_def isTeamSession_def adminSession_def)
  then have "\<exists>raw. sampleCookies (getTeamSessionKey ''t1'') = Inr (Some raw) \<and> raw \<noteq> []
        \<and> sampleParse raw = Inr adminSession \<and> isTeamSession adminSession"
    by blast
  with readTeamSession_tolerant [of sampleCookies sampleParse "''t1''" _ adminSession]
  have 1: "readTeamSession sampleCookies sampleParse ''t1'' = Inr (Some adminSession)"
    by blast
  from 1 2 3 5 show ?thesis by simp
qed

section \<open>Properties of the optimistic group drop\<close>

lemma setGroupId_Some:
  "setGroupId mid v (Some p) =
     Some (p\<lparr>team := (team p)
            \<lparr>members := map (\<lambda>m. if member_id m = mid then m\<lparr>groupId := v\<rparr> else m)
                          (members (team p))\<rparr>\<rparr>)"
  by (simp add: setGroupId_def)

lemma ids_set_groupId:
  "map member_id (map (\<lambda>m. if member_id m = mid then m\<lparr>groupId := v\<rparr> else m) ms) =
     map member_id ms"
  by (induction ms) simp_all

lemma groupId_set_groupId:
  assumes "x \<in> set (map (\<lambda>m. if member_id m = mid then m\<lparr>groupId := v\<rparr> else m) ms)"
    and "member_id x = mid"
  shows "groupId x = v"
proof -
  from assms(1) obtain y where y: "x = (if member_id y = mid then y\<lparr>groupId := v\<rparr> else y)"
    by (auto simp only: set_map image_iff)
  show ?thesis
  proof (cases "member_id y = mid")
    case True
    with y show ?thesis by simp
  next
    case False
    with y assms(2) show ?thesis by simp
  qed
qed

lemma find_member_id:
  "find (\<lambda>m. member_id m = mid) ms = Some m \<Longrightarrow> m \<in> set ms \<and> member_id m = mid"
  by (auto simp: find_Some_iff)

lemma revert_restores:
  assumes d: "distinct (map member_id ms)" and m: "m \<in> set ms" "member_id m = mid"
  shows "map (\<lambda>x. if member_id x = mid then x\<lparr>groupId := groupId m\<rparr> else x)
           (map (\<lambda>x. if member_id x = mid then x\<lparr>groupId := v\<rparr> else x) ms) = ms"
proof -
  have same: "x = m" if "x \<in> set ms" "member_id x = mid" for x
    using that d m by (auto simp: distinct_map dest: inj_onD)
  have "(if member_id (if member_id x = mid then x\<lparr>groupId := v\<rparr> else x) = mid
         then (if member_id x = mid then x\<lparr>groupId := v\<rparr> else x)\<lparr>groupId := groupId m\<rparr>
         else (if member_id x = mid then x\<lparr>groupId := v\<rparr> else x)) = x"
    if x: "x \<in> set ms" for x
  proof (cases "member_id x = mid")
    case True
    with same [OF x] have "x = m" by simp
    with True show ?thesis by simp
  next
    case False
    then show ?thesis by simp
  qed
  then show ?thesis
    by (simp add: map_idI comp_def)
qed

lemma until_await_writes:
  assumes "isAdmin c" "session c = Some sess"
    and "find (\<lambda>m. member_id m = mid) (view_members c) = Some m"
    and "groupId m \<noteq> Some g"
  shows "dropped_until_await c mid g st =
           (st\<lparr>cache := setGroupId mid (Some g) (cache st),
               effects := effects st @
                 [CacheUpdated (setGroupId mid (Some g) (cache st)),
                  Requested \<lparr>call_teamId = teamId c, call_token = token sess,
                             call_memberId = mid, call_groupId = g\<rparr>]\<rparr>,
            Some \<lparr>pending_member = m, previousGroupId = groupId m,
                  pending_call = \<lparr>call_teamId = teamId c, call_token = token sess,
                                  call_memberId = mid, call_groupId = g\<rparr>\<rparr>)"
  using assms by (simp add: dropped_until_await_def updateTeamCache_def emit_def Let_def)

lemma after_await_failure:
  "dropped_after_await c mid g pend (Failure err) st =
     st\<lparr>cache := setGroupId mid (previousGroupId pend) (cache st),
        effects := effects st @
          [CacheUpdated (setGroupId mid (previousGroupId pend) (cache st)),
           Toasted (toast_error err)]\<rparr>"
  by (simp add: dropped_after_await_def updateTeamCache_def emit_def Let_def)

lemma after_await_success:
  "dropped_after_await c mid g pend Success st =
     st\<lparr>effects := effects st @
          [Toasted (toast_success
             (member_name (pending_member pend) @ '' added to '' @
                (case find (\<lambda>x. group_id x = g) (view_groups c) of
                   None \<Rightarrow> ''group''
                 | Some x \<Rightarrow> group_name x)))]\<rparr>"
  by (simp only: dropped_after_await_def emit_def ActionResult.case)

lemma drop_behind_guards:
  assumes adm: "isAdmin c" and sess: "session c = Some s"
    and found: "find (\<lambda>x. member_id x = mid) (view_members c) = Some m"
    and other: "groupId m \<noteq> Some g"
    and cached: "cache st = Some p"
  shows "\<exists>st1 pend opt.
      dropped_until_await c mid g st = (st1, Some pend)
      \<and> cache st1 = Some opt
      \<and> (\<forall>x \<in> set (members (team opt)). member_id x = mid \<longrightarrow> groupId x = Some g)
      \<and> map member_id (members (team opt)) = map member_id (members (team p))
      \<and> effects st1 = effects st @ [CacheUpdated (Some opt), Requested (pending_call pend)]
      \<and> pending_call pend = \<lparr>call_teamId = teamId c, call_token = token s,
                               call_memberId = mid, call_groupId = g\<rparr>
      \<and> previousGroupId pend = groupId m
      \<and> (\<forall>err. updateMember (pending_call pend) = Failure err \<longrightarrow>
           (\<exists>q. cache (handleMemberDroppedOnGroup c updateMember mid g st) = Some q
              \<and> (\<forall>x \<in> set (members (team q)). member_id x = mid \<longrightarrow> groupId x = groupId m)
              \<and> map member_id (members (team q)) = map member_id (members (team p))
              \<and> (view_members c = members (team p)
                   \<and> distinct (map member_id (members (team p))) \<longrightarrow> q = p)
              \<and> effects (handleMemberDroppedOnGroup c updateMember mid g st) =
                  effects st1 @ [CacheUpdated (Some q), Toasted (toast_error err)]))
      \<and> (updateMember (pending_call pend) = Success \<longrightarrow>
           cache (handleMemberDroppedOnGroup c updateMember mid g st) = Some opt
           \<and> (\<exists>msg. effects (handleMemberDroppedOnGroup c updateMember mid g st) =
                  effects st1 @ [Toasted (toast_success msg)]))"
proof -
  let ?set = "\<lambda>v. map (\<lambda>x. if member_id x = mid then x\<lparr>groupId := v\<rparr> else x)"
  let ?opt = "p\<lparr>team := (team p)\<lparr>members := ?set (Some g) (members (team p))\<rparr>\<rparr>"
  let ?call = "\<lparr>call_teamId = teamId c, call_token = token s,
                call_memberId = mid, call_groupId = g\<rparr>"
  let ?pend = "\<lparr>pending_member = m, previousGroupId = groupId m, pending_call = ?call\<rparr>"
  let ?st1 = "st\<lparr>cache := Some ?opt,
                 effects := effects st @ [CacheUpdated (Some ?opt), Requested ?call]\<rparr>"
  let ?q = "?opt\<lparr>team := (team ?opt)\<lparr>members := ?set (groupId m) (members (team ?opt))\<rparr>\<rparr>"
  let ?h = "handleMemberDroppedOnGroup c updateMember mid g st"
  have o: "setGroupId mid (Some g) (cache st) = Some ?opt"
    by (simp only: cached setGroupId_Some)
  have first: "dropped_until_await c mid g st = (?st1, Some ?pend)"
    by (simp only: until_await_writes [OF adm sess found other] o)
  have h: "?h = dropped_after_await c mid g ?pend (updateMember ?call) ?st1"
    by (simp add: handleMemberDroppedOnGroup_def first)
  have mo: "members (team ?opt) = ?set (Some g) (members (team p))"
    by simp
  have mq: "members (team ?q) = ?set (groupId m) (members (team ?opt))"
    by simp
  have c1: "cache ?st1 = Some ?opt"
    by simp
  have e1: "effects ?st1 = effects st @ [CacheUpdated (Some ?opt), Requested ?call]"
    by simp
  have pc: "pending_call ?pend = ?call" and pg: "previousGroupId ?pend = groupId m"
    by simp_all
  have g1: "\<forall>x \<in> set (members (team ?opt)). member_id x = mid \<longrightarrow> groupId x = Some g"
    using groupId_set_groupId [of _ mid "Some g" "members (team p)"] by (simp only: mo) blast
  have i1: "map member_id (members (team ?opt)) = map member_id (members (team p))"
    by (simp only: mo ids_set_groupId)
  have r: "setGroupId mid (groupId m) (Some ?opt) = Some ?q"
    by (rule setGroupId_Some)
  have fail: "\<exists>q. cache ?h = Some q
              \<and> (\<forall>x \<in> set (members (team q)). member_id x = mid \<longrightarrow> groupId x = groupId m)
              \<and> map member_id (members (team q)) = map member_id (members (team p))
              \<and> (view_members c = members (team p)
                   \<and> distinct (map member_id (members (team p))) \<longrightarrow> q = p)
              \<and> effects ?h = effects ?st1 @ [CacheUpdated (Some q), Toasted (toast_error err)]"
    if f: "updateMember ?call = Failure err" for err
  proof -
    have hf: "?h = ?st1\<lparr>cache := Some ?q,
                 effects := effects ?st1 @ [CacheUpdated (Some ?q), Toasted (toast_error err)]\<rparr>"
      by (simp only: h f after_await_failure pg c1 r)
    have a: "cache ?h = Some ?q"
      by (simp only: hf) simp
    have b: "effects ?h = effects ?st1 @ [CacheUpdated (Some ?q), Toasted (toast_error err)]"
      by (simp only: hf) simp
    have g2: "\<forall>x \<in> set (members (team ?q)). member_id x = mid \<longrightarrow> groupId x = groupId m"
      using groupId_set_groupId [of _ mid "groupId m" "members (team ?opt)"]
      by (simp only: mq) blast
    have i2: "map member_id (members (team ?q)) = map member_id (members (team p))"
      by (simp only: mq ids_set_groupId i1)
    have restored: "?q = p"
      if v: "view_members c = members (team p) \<and> distinct (map member_id (members (team p)))"
    proof -
      from found v have "m \<in> set (members (team p)) \<and> member_id m = mid"
        using find_member_id [of mid "members (team p)" m] by simp
      with v have "?set (groupId m) (?set (Some g) (members (team p))) = members (team p)"
        using revert_restores [of "members (team p)" m mid "Some g"] by simp
      then have "members (team ?q) = members (team p)"
        by simp
      then show ?thesis by simp
    qed
    from a b g2 i2 restored show ?thesis
      by blast
  qed
  have succ: "cache ?h = Some ?opt
           \<and> (\<exists>msg. effects ?h = effects ?st1 @ [Toasted (toast_success msg)])"
    if f: "updateMember ?call = Success"
  proof -
    have "?h = dropped_after_await c mid g ?pend Success ?st1"
      by (simp only: h f)
    then show ?thesis
      by (simp only: after_await_success) simp
  qed
  show ?thesis
    apply (rule exI [of _ ?st1])
    apply (rule exI [of _ ?pend])
    apply (rule exI [of _ ?opt])
    apply (intro conjI allI impI)
    subgoal by (rule first)
    subgoal by (rule c1)
    subgoal using g1 by blast
    subgoal by (rule i1)
    subgoal by (simp only: e1 pc)
    subgoal by (rule pc)
    subgoal by (rule pg)
    subgoal for err using fail [of err] by (simp only: pc)
    subgoal using succ by (simp only: pc)
    subgoal using succ by (simp only: pc)
    done
qed

lemma drop_without_access:
  assumes "\<not> isAdmin c \<or> session c = None"
  shows "dropped_until_await c mid g st =
           (st\<lparr>effects := effects st @ [Toasted (toast_error ''Admin access required'')]\<rparr>, None)"
proof (cases "isAdmin c")
  case False
  then show ?thesis
    by (simp add: dropped_until_await_def emit_def)
next
  case True
  with assms have "session c = None" by simp
  with True show ?thesis
    by (simp add: dropped_until_await_def emit_def)
qed

lemma drop_unknown_member:
  assumes "isAdmin c" "session c = Some sess"
    and "find (\<lambda>x. member_id x = mid) (view_members c) = None"
  shows "dropped_until_await c mid g st = (st, None)"
  using assms by (simp add: dropped_until_await_def)

lemma drop_on_own_group:
  assumes "isAdmin c" "session c = Some sess"
    and "find (\<lambda>x. member_id x = mid) (view_members c) = Some m"
    and "groupId m = Some g"
  shows "dropped_until_await c mid g st = (st, None)"
  using assms by (simp add: dropped_until_await_def)

lemma handler_returns_early:
  "dropped_until_await c mid g st = (st1, None) \<Longrightarrow>
     handleMemberDroppedOnGroup c updateMember mid g st = st1"
  by (simp add: handleMemberDroppedOnGroup_def)

text \<open>
  C8, as the handler has it. Without admin access or without a session the handler
  only shows the toast \<^verbatim>\<open>Admin access required\<close>; for a member id that is not in the
  rendered member list, and for a member dropped on the group it is in already, it does
  nothing at all: in these cases the cache is not written and no request is issued.
  Otherwise, with \<open>m\<close> the rendered member and \<open>g\<close> a group \<open>m\<close> is not in, and with the
  team's snapshot in the cache, the handler first writes the cache so that every stored
  member with \<open>m\<close>'s id has \<^verbatim>\<open>groupId = g\<close>, and then issues the \<^verbatim>\<open>updateMember\<close>
  request. If the request fails, the cache is written again so that \<^verbatim>\<open>groupId\<close> is the
  value captured before the optimistic write, and an error toast is shown; when the
  callback was rendered from the stored snapshot and the member ids are unique, the
  snapshot is the one before the drop. If the request succeeds, the cache is not
  written again, so \<^verbatim>\<open>groupId\<close> remains \<open>g\<close>.
\<close>

theorem optimistic_drop_rollback:
  "(\<not> isAdmin c \<or> session c = None \<longrightarrow>
      dropped_until_await c mid g st =
        (st\<lparr>effects := effects st @ [Toasted (toast_error ''Admin access required'')]\<rparr>, None)
      \<and> handleMemberDroppedOnGroup c updateMember mid g st =
        st\<lparr>effects := effects st @ [Toasted (toast_error ''Admin access required'')]\<rparr>)
   \<and> (isAdmin c \<and> session c = Some s
        \<and> find (\<lambda>x. member_id x = mid) (view_members c) = None \<longrightarrow>
      dropped_until_await c mid g st = (st, None)
      \<and> handleMemberDroppedOnGroup c updateMember mid g st = st)
   \<and> (isAdmin c \<and> session c = Some s
        \<and> find (\<lambda>x. member_id x = mid) (view_members c) = Some m
        \<and> groupId m = Some g \<longrightarrow>
      dropped_until_await c mid g st = (st, None)
      \<and> handleMemberDroppedOnGroup c updateMember mid g st = st)
   \<and> (isAdmin c \<and> session c = Some s
        \<and> find (\<lambda>x. member_id x = mid) (view_members c) = Some m
        \<and> groupId m \<noteq> Some g \<and> cache st = Some p \<longrightarrow>
      (\<exists>st1 pend opt.
        dropped_until_await c mid g st = (st1, Some pend)
        \<and> cache st1 = Some opt
        \<and> (\<forall>x \<in> set (members (team opt)). member_id x = mid \<longrightarrow> groupId x = Some g)
        \<and> map member_id (members (team opt)) = map member_id (members (team p))
        \<and> effects st1 = effects st @ [CacheUpdated (Some opt), Requested (pending_call pend)]
        \<and> pending_call pend = \<lparr>call_teamId = teamId c, call_token = token s,
                                 call_memberId = mid, call_groupId = g\<rparr>
        \<and> previousGroupId pend = groupId m
        \<and> (\<forall>err. updateMember (pending_call pend) = Failure err \<longrightarrow>
             (\<exists>q. cache (handleMemberDroppedOnGroup c updateMember mid g st) = Some q
                \<and> (\<forall>x \<in> set (members (team q)). member_id x = mid \<longrightarrow> groupId x = groupId m)
                \<and> map member_id (members (team q)) = map member_id (members (team p))
                \<and> (view_members c = members (team p)
                     \<and> distinct (map member_id (members (team p))) \<longrightarrow> q = p)
                \<and> effects (handleMemberDroppedOnGroup c updateMember mid g st) =
                    effects st1 @ [CacheUpdated (Some q), Toasted (toast_error err)]))
        \<and> (updateMember (pending_call pend) = Success \<longrightarrow>
             cache (handleMemberDroppedOnGroup c updateMember mid g st) = Some opt
             \<and> (\<exists>msg. effects (handleMemberDroppedOnGroup c updateMember mid g st) =
                    effects st1 @ [Toasted (toast_success msg)]))))"
proof (intro conjI impI)
  assume a: "\<not> isAdmin c \<or> session c = None"
  show 1: "dropped_until_await c mid g st =
        (st\<lparr>effects := effects st @ [Toasted (toast_error ''Admin access required'')]\<rparr>, None)"
    by (rule drop_without_access [OF a])
  show "handleMemberDroppedOnGroup c updateMember mid g st =
        st\<lparr>effects := effects st @ [Toasted (toast_error ''Admin access required'')]\<rparr>"
    by (rule handler_returns_early [OF 1])
next
  assume a: "isAdmin c \<and> session c = Some s
        \<and> find (\<lambda>x. member_id x = mid) (view_members c) = None"
  then show 2: "dropped_until_await c mid g st = (st, None)"
    by (simp add: drop_unknown_member)
  show "handleMemberDroppedOnGroup c updateMember mid g st = st"
    by (rule handler_returns_early [OF 2])
next
  assume a: "isAdmin c \<and> session c = Some s
        \<and> find (\<lambda>x. member_id x = mid) (view_members c) = Some m
        \<and> groupId m = Some g"
  then show 3: "dropped_until_await c mid g st = (st, None)"
    by (simp add: drop_on_own_group)
  show "handleMemberDroppedOnGroup c updateMember mid g st = st"
    by (rule handler_returns_early [OF 3])
next
  assume a: "isAdmin c \<and> session c = Some s
        \<and> find (\<lambda>x. member_id x = mid) (view_members c) = Some m
        \<and> groupId m \<noteq> Some g \<and> cache st = Some p"
  then have "isAdmin c" "session c = Some s"
    "find (\<lambda>x. member_id x = mid) (view_members c) = Some m"
    "groupId m \<noteq> Some g" "cache st = Some p"
    by simp_all
  then show "\<exists>st1 pend opt.
        dropped_until_await c mid g st = (st1, Some pend)
        \<and> cache st1 = Some opt
        \<and> (\<forall>x \<in> set (members (team opt)). member_id x = mid \<longrightarrow> groupId x = Some g)
        \<and> map member_id (members (team opt)) = map member_id (members (team p))
        \<and> effects st1 = effects st @ [CacheUpdated (Some opt), Requested (pending_call pend)]
        \<and> pending_call pend = \<lparr>call_teamId = teamId c, call_token = token s,
                                 call_memberId = mid, call_groupId = g\<rparr>
        \<and> previousGroupId pend = groupId m
        \<and> (\<forall>err. updateMember (pending_call pend) = Failure err \<longrightarrow>
             (\<exists>q. cache (handleMemberDroppedOnGroup c updateMember mid g st) = Some q
                \<and> (\<forall>x \<in> set (members (team q)). member_id x = mid \<longrightarrow> groupId x = groupId m)
                \<and> map member_id (members (team q)) = map member_id (members (team p))
                \<and> (view_members c = members (team p)
                     \<and> distinct (map member_id (members (team p))) \<longrightarrow> q = p)
                \<and> effects (handleMemberDroppedOnGroup c updateMember mid g st) =
                    effects st1 @ [CacheUpdated (Some q), Toasted (toast_error err)]))
        \<and> (updateMember (pending_call pend) = Success \<longrightarrow>
             cache (handleMemberDroppedOnGroup c updateMember mid g st) = Some opt
             \<and> (\<exists>msg. effects (handleMemberDroppedOnGroup c updateMember mid g st) =
                    effects st1 @ [Toasted (toast_success msg)]))"
    by (rule drop_behind_guards)
qed

theorem optimistic_drop_rollback_witness:
  "cache (handleMemberDroppedOnGroup (rendered ''t1'' (Some adminToken) (Some smallTeam))
            offline ''m2'' ''g1'' page0) = Some smallTeam
   \<and> Toasted (toast_error ''offline'')
        \<in> set (effects (handleMemberDroppedOnGroup (rendered ''t1'' (Some adminToken) (Some smallTeam))
                         offline ''m2'' ''g1'' page0))
   \<and> handleMemberDroppedOnGroup (rendered ''t1'' (Some adminToken) (Some smallTeam))
        offline ''m1'' ''g1'' page0 = page0
   \<and> handleMemberDroppedOnGroup (rendered ''t1'' (Some adminToken) (Some smallTeam))
        offline ''m7'' ''g1'' page0 = page0
   \<and> handleMemberDroppedOnGroup (rendered ''t1'' (Some memberToken) (Some memberView))
        offline ''m2'' ''g1'' page0
      = page0\<lparr>effects := effects page0 @ [Toasted (toast_error ''Admin access required'')]\<rparr>"
proof -
  let ?c = "rendered ''t1'' (Some adminToken) (Some smallTeam)"
  let ?h = "handleMemberDroppedOnGroup ?c offline ''m2'' ''g1'' page0"
  have adm: "isAdmin ?c"
    by (simp add: rendered_def smallTeam_def)
  have sess: "session ?c = Some adminToken"
    by (simp add: rendered_def)
  have vm: "view_members ?c = [ann, bob]"
    by (simp add: rendered_def smallTeam_def)
  have ids: "member_id ann = ''m1''" "member_id bob = ''m2''"
    by (simp_all add: ann_def bob_def)
  have found: "find (\<lambda>x. member_id x = ''m2'') (view_members ?c) = Some bob"
    by (simp add: vm ids)
  have other: "groupId bob \<noteq> Some ''g1''"
    by (simp add: bob_def)
  have cached: "cache page0 = Some smallTeam"
    by (simp add: page0_def)
  have guards: "isAdmin ?c \<and> session ?c = Some adminToken
        \<and> find (\<lambda>x. member_id x = ''m2'') (view_members ?c) = Some bob
        \<and> groupId bob \<noteq> Some ''g1'' \<and> cache page0 = Some smallTeam"
    by (intro conjI adm sess found other cached)
  note T = optimistic_drop_rollback
    [where c = ?c and mid = "''m2''" and g = "''g1''" and st = page0 and s = adminToken
       and m = bob and p = smallTeam and updateMember = offline]
  from T [THEN conjunct2, THEN conjunct2, THEN conjunct2, THEN mp, OF guards]
  obtain st1 :: Page and pend :: Pending where F: "\<forall>err. offline (pending_call pend) = Failure err \<longrightarrow>
           (\<exists>q. cache ?h = Some q
              \<and> (\<forall>x \<in> set (members (team q)). member_id x = ''m2'' \<longrightarrow> groupId x = groupId bob)
              \<and> map member_id (members (team q)) = map member_id (members (team smallTeam))
              \<and> (view_members ?c = members (team smallTeam)
                   \<and> distinct (map member_id (members (team smallTeam))) \<longrightarrow> q = smallTeam)
              \<and> effects ?h = effects st1 @ [CacheUpdated (Some q), Toasted (toast_error err)])"
    by (elim exE conjE) blast
  have "offline (pending_call pend) = Failure ''offline''"
    by (simp add: offline_def)
  with F obtain q where q: "cache ?h = Some q"
    and r: "view_members ?c = members (team smallTeam)
             \<and> distinct (map member_id (members (team smallTeam))) \<longrightarrow> q = smallTeam"
    and e: "effects ?h = effects st1 @ [CacheUpdated (Some q), Toasted (toast_error ''offline'')]"
    by blast
  have "view_members ?c = members (team smallTeam)
        \<and> distinct (map member_id (members (team smallTeam)))"
  proof
    show "view_members ?c = members (team smallTeam)"
      by (simp add: vm) (simp add: smallTeam_def)
    show "distinct (map member_id (members (team smallTeam)))"
      by (simp add: smallTeam_def ids)
  qed
  with r have "q = smallTeam" by blast
  with q e have rollback: "cache ?h = Some smallTeam
      \<and> Toasted (toast_error ''offline'') \<in> set (effects ?h)"
    by simp
  have own: "isAdmin ?c \<and> session ?c = Some adminToken
        \<and> find (\<lambda>x. member_id x = ''m1'') (view_members ?c) = Some ann
        \<and> groupId ann = Some ''g1''"
    by (simp add: adm sess vm ids) (simp add: ann_def)
  have same: "handleMemberDroppedOnGroup ?c offline ''m1'' ''g1'' page0 = page0"
    using optimistic_drop_rollback
      [where c = ?c and mid = "''m1''" and g = "''g1''" and st = page0 and s = adminToken
         and m = ann and updateMember = offline,
       THEN conjunct2, THEN conjunct2, THEN conjunct1, THEN mp, OF own]
    by (rule conjunct2)
  have unknown: "isAdmin ?c \<and> session ?c = Some adminToken
        \<and> find (\<lambda>x. member_id x = ''m7'') (view_members ?c) = None"
    by (simp add: adm sess vm ids)
  have none: "handleMemberDroppedOnGroup ?c offline ''m7'' ''g1'' page0 = page0"
    using optimistic_drop_rollback
      [where c = ?c and mid = "''m7''" and g = "''g1''" and st = page0 and s = adminToken
         and updateMember = offline,
       THEN conjunct2, THEN conjunct1, THEN mp, OF unknown]
    by (rule conjunct2)
  have viewer: "\<not> isAdmin (rendered ''t1'' (Some memberToken) (Some memberView))
        \<or> session (rendered ''t1'' (Some memberToken) (Some memberView)) = None"
    by (simp add: rendered_def memberView_def)
  have refused: "handleMemberDroppedOnGroup (rendered ''t1'' (Some memberToken) (Some memberView))
        offline ''m2'' ''g1'' page0
      = page0\<lparr>effects := effects page0 @ [Toasted (toast_error ''Admin access required'')]\<rparr>"
    using optimistic_drop_rollback
      [where c = "rendered ''t1'' (Some memberToken) (Some memberView)" and mid = "''m2''"
         and g = "''g1''" and st = page0 and updateMember = offline,
       THEN conjunct1, THEN mp, OF viewer]
    by (rule conjunct2)
  from rollback same none refused show ?thesis
    by blast
qed


text \<open>
  C8 for every drop does not hold. A member dropped on the group it is in
  already leaves the page as it is: no request is issued and no error is recorded,
  although the request would fail. Without admin access the handler only shows an
  error toast; the cache is not written and no request is issued.
\<close>

theorem drop_on_own_group_counterexample:
  "handleMemberDroppedOnGroup (rendered ''t1'' (Some adminToken) (Some smallTeam))
      offline ''m1'' ''g1'' page0 = page0
   \<and> effects page0 = []
   \<and> offline \<lparr>call_teamId = ''t1'', call_token = ''tok'', call_memberId = ''m1'',
               call_groupId = ''g1''\<rparr> = Failure ''offline''
   \<and> handleMemberDroppedOnGroup (rendered ''t1'' (Some memberToken) (Some memberView))
        offline ''m2'' ''g1'' \<lparr>cache = Some memberView, effects = []\<rparr>
      = \<lparr>cache = Some memberView, effects = [Toasted (toast_error ''Admin access required'')]\<rparr>
   \<and> map groupId (members (team memberView)) = [Some ''g1'', None]"
proof -
  have vm: "view_members (rendered ''t1'' (Some adminToken) (Some smallTeam)) = [ann, bob]"
    by (simp add: rendered_def smallTeam_def)
  have adm: "isAdmin (rendered ''t1'' (Some adminToken) (Some smallTeam))"
    by (simp add: rendered_def smallTeam_def)
  have sess: "session (rendered ''t1'' (Some adminToken) (Some smallTeam)) = Some adminToken"
    by (simp add: rendered_def)
  have a: "member_id ann = ''m1''" "groupId ann = Some ''g1''"
    by (simp_all add: ann_def)
  have 1: "dropped_until_await (rendered ''t1'' (Some adminToken) (Some smallTeam))
             ''m1'' ''g1'' page0 = (page0, None)"
    by (simp add: dropped_until_await_def adm sess vm a)
  have nadm: "\<not> isAdmin (rendered ''t1'' (Some memberToken) (Some memberView))"
    by (simp add: rendered_def memberView_def)
  have 2: "dropped_until_await (rendered ''t1'' (Some memberToken) (Some memberView))
             ''m2'' ''g1'' \<lparr>cache = Some memberView, effects = []\<rparr>
           = (\<lparr>cache = Some memberView, effects = [Toasted (toast_error ''Admin access required'')]\<rparr>, None)"
    by (simp add: dropped_until_await_def nadm emit_def)
  have 3: "map groupId (members (team memberView)) = [Some ''g1'', None]"
    by (simp add: memberView_def smallTeam_def ann_def bob_def)
  from 1 2 3 show ?thesis
    by (simp add: handleMemberDroppedOnGroup_def page0_def offline_def)
qed

end
